theory Spec2Isabelle
  imports Main
begin

section \<open>JavaScript values\<close>

text \<open>
  The component in \<^verbatim>\<open>src/app/app.ts\<close> is TypeScript; what runs is JavaScript, and the
  annotations on record fields and on binding converters are erased. The values that
  reach a converter are modelled by \<open>jsval\<close>. Raising an exception is the result
  \<open>Inl e\<close>.

  A number is modelled by \<open>jsnum\<close>: an integer, or the value \<^verbatim>\<open>-Infinity\<close> that
  \<^verbatim>\<open>Math.max()\<close> returns on no arguments. (A double holds every integer below
  \<open>2 ^ 53\<close> in magnitude exactly; keys beyond that are outside the model.)
  Strings are byte strings; a character outside ASCII is its UTF-8 bytes.
\<close>

datatype jsnum = NegInfinity | Num int

datatype jsval = JUndefined | JNull | JBool bool | JNumber jsnum | JStr string

datatype error =
    TypeError
  | DuplicateKey
  | UnknownRecord
  | AlreadyRecording
  | NothingToUndo
  | NothingToRedo

text \<open>\<^verbatim>\<open>Math.max(...xs)\<close>: the largest argument, \<^verbatim>\<open>-Infinity\<close> when there is none.\<close>

fun jsmax :: "jsnum \<Rightarrow> jsnum \<Rightarrow> jsnum" where
  "jsmax NegInfinity y = y"
| "jsmax x NegInfinity = x"
| "jsmax (Num x) (Num y) = Num (max x y)"

definition Math_max :: "jsnum list \<Rightarrow> jsnum" where
  "Math_max xs = foldr jsmax xs NegInfinity"

text \<open>\<^verbatim>\<open>x + 1\<close> on numbers: \<^verbatim>\<open>-Infinity + 1\<close> is \<^verbatim>\<open>-Infinity\<close>.\<close>

fun plus_one :: "jsnum \<Rightarrow> jsnum" where
  "plus_one NegInfinity = NegInfinity"
| "plus_one (Num x) = Num (x + 1)"

text \<open>The decimal digits of a natural number, and a number as a template literal prints it.\<close>

fun digits :: "nat \<Rightarrow> string" where
  "digits n = (if n < 10 then [char_of (48 + n)]
               else digits (n div 10) @ [char_of (48 + n mod 10)])"

declare digits.simps [simp del]

definition toString :: "jsnum \<Rightarrow> string" where
  "toString x = (case x of
       NegInfinity \<Rightarrow> ''-Infinity''
     | Num i \<Rightarrow> (if i < 0 then ''-'' @ digits (nat (- i)) else digits (nat i)))"

text \<open>
  \<^verbatim>\<open>s.toUpperCase()\<close> on the ASCII letters; other bytes are kept (the status and role
  strings of the component are ASCII).
\<close>

definition upperChar :: "char \<Rightarrow> char" where
  "upperChar c = (let n = (of_char c :: nat) in
                  if 97 \<le> n \<and> n \<le> 122 then char_of (n - 32) else c)"

definition toUpperCase :: "string \<Rightarrow> string" where
  "toUpperCase s = map upperChar s"

text \<open>
  \<^verbatim>\<open>s?.toUpperCase()\<close>: \<^verbatim>\<open>undefined\<close> on \<^verbatim>\<open>undefined\<close> and \<^verbatim>\<open>null\<close>, the upper-case string
  on a string, and a TypeError on any other value (a number or a boolean has no
  method \<^verbatim>\<open>toUpperCase\<close>).
\<close>

fun optToUpperCase :: "jsval \<Rightarrow> error + jsval" where
  "optToUpperCase JUndefined = Inr JUndefined"
| "optToUpperCase JNull = Inr JUndefined"
| "optToUpperCase (JStr s) = Inr (JStr (toUpperCase s))"
| "optToUpperCase (JBool b) = Inl TypeError"
| "optToUpperCase (JNumber n) = Inl TypeError"

text \<open>Truthiness, for \<^verbatim>\<open>a || b\<close>. (No number of the model is NaN.)\<close>

fun truthy :: "jsval \<Rightarrow> bool" where
  "truthy JUndefined = False"
| "truthy JNull = False"
| "truthy (JBool b) = b"
| "truthy (JNumber n) = (n \<noteq> Num 0)"
| "truthy (JStr s) = (s \<noteq> [])"

definition or_else :: "jsval \<Rightarrow> jsval \<Rightarrow> jsval" where
  "or_else a b = (if truthy a then a else b)"

section \<open>Data records\<close>

text \<open>
  \<^verbatim>\<open>interface NodeData { key: number; name: string; status?: ...; role?: ... }\<close> and
  \<^verbatim>\<open>interface LinkData { from: number; to: number }\<close>. The optional fields hold
  whatever value was stored, \<open>JUndefined\<close> when the field is missing. The fields
  \<^verbatim>\<open>from\<close> and \<^verbatim>\<open>to\<close> are \<open>link_from\<close> and \<open>link_to\<close>.
\<close>

record NodeData =
  key :: jsnum
  name :: string
  status :: jsval
  role :: jsval

record LinkData =
  link_from :: jsnum
  link_to :: jsnum

text \<open>\<^verbatim>\<open>data[field]\<close>, the value a binding reads from a node record.\<close>

definition fieldValue :: "string \<Rightarrow> NodeData \<Rightarrow> jsval" where
  "fieldValue f d =
     (if f = ''key'' then JNumber (key d)
      else if f = ''name'' then JStr (name d)
      else if f = ''status'' then status d
      else if f = ''role'' then role d
      else JUndefined)"

section \<open>Binding converters\<close>

text \<open>
  The conversion functions passed to \<^verbatim>\<open>.bind(target, source, converter)\<close> in
  \<^verbatim>\<open>loadExample\<close>, one constructor for each arrow function, named by the example and the
  target property.
\<close>

datatype converter =
    BindingsFill
  | BindingsText
  | VerticalFill
  | CompositionRoleFill
  | CompositionVisible
  | CompositionStatusFill
  | CompositionText

fun convert :: "converter \<Rightarrow> jsval \<Rightarrow> error + jsval" where
  "convert BindingsFill s =
     Inr (if s = JStr ''active'' then JStr ''lightgreen'' else JStr ''lightcoral'')"
| "convert BindingsText s =
     (case optToUpperCase s of Inl e \<Rightarrow> Inl e | Inr u \<Rightarrow> Inr (or_else u (JStr ''N/A'')))"
| "convert VerticalFill s =
     Inr (if s = JStr ''active'' then JStr ''green'' else JStr ''gray'')"
| "convert CompositionRoleFill r =
     Inr (if r = JStr ''manager'' then JStr ''#FFF4E6'' else JStr ''white'')"
| "convert CompositionVisible r = Inr (JBool (r = JStr ''manager''))"
| "convert CompositionStatusFill s =
     Inr (if s = JStr ''active'' then JStr ''#D1FAE5'' else JStr ''#FEE2E2'')"
| "convert CompositionText s = optToUpperCase s"

section \<open>Templates\<close>

text \<open>
  A template is a tree of visual objects built with \<^verbatim>\<open>new go.Node(...).add(...)\<close>: each
  object carries the properties of its initialiser and the bindings added with
  \<^verbatim>\<open>.bind\<close>. The handlers of the \<^verbatim>\<open>events\<close> example restyle the drawn part or open an
  alert and never touch the data; they are kept as tags.
\<close>

datatype spot = TopRight | Center | Left

datatype handler = Click | MouseEnter | MouseLeave

datatype propval =
    PStr string
  | PNum int
  | PNull
  | PMargin int int int int
  | PSpot spot
  | PHandler handler

datatype binding = Bind string string "converter option"

datatype graphObject =
    Shape "string option" "(string \<times> propval) list" "binding list"
  | TextBlock "string option" "(string \<times> propval) list" "binding list"
  | Panel string "(string \<times> propval) list" "graphObject list"
  | Node string "(string \<times> propval) list" "graphObject list"
  | Link "graphObject list"

fun bindingsOf :: "graphObject \<Rightarrow> binding list" where
  "bindingsOf (Shape fig ps bs) = bs"
| "bindingsOf (TextBlock txt ps bs) = bs"
| "bindingsOf (Panel ty ps cs) = concat (map bindingsOf cs)"
| "bindingsOf (Node ty ps cs) = concat (map bindingsOf cs)"
| "bindingsOf (Link cs) = concat (map bindingsOf cs)"

fun converterOf :: "binding \<Rightarrow> converter list" where
  "converterOf (Bind target source None) = []"
| "converterOf (Bind target source (Some c)) = [c]"

definition convertersOf :: "graphObject \<Rightarrow> converter list" where
  "convertersOf t = concat (map converterOf (bindingsOf t))"

definition createBasicNodeTemplate :: graphObject where
  "createBasicNodeTemplate =
     Node ''Auto'' []
       [Shape (Some ''RoundedRectangle'')
          [(''fill'', PStr ''white''), (''stroke'', PStr ''#028090''), (''strokeWidth'', PNum 2)] [],
        TextBlock None
          [(''margin'', PNum 10), (''font'', PStr ''14pt sans-serif'')]
          [Bind ''text'' ''name'' None]]"

definition linkTemplateInit :: graphObject where
  "linkTemplateInit =
     Link
       [Shape None [(''strokeWidth'', PNum 2), (''stroke'', PStr ''#028090'')] [],
        Shape None
          [(''toArrow'', PStr ''Standard''), (''fill'', PStr ''#028090''), (''stroke'', PNull)] []]"

definition graphobjectBasicsTemplate :: graphObject where
  "graphobjectBasicsTemplate =
     Node ''Auto'' []
       [Shape (Some ''RoundedRectangle'')
          [(''fill'', PStr ''lightblue''), (''stroke'', PStr ''black''), (''strokeWidth'', PNum 2)] [],
        TextBlock None
          [(''margin'', PNum 12), (''font'', PStr ''bold 14pt sans-serif'')]
          [Bind ''text'' ''name'' None]]"

definition bindingsTemplate :: graphObject where
  "bindingsTemplate =
     Node ''Auto'' []
       [Shape (Some ''RoundedRectangle'')
          [(''stroke'', PStr ''black''), (''strokeWidth'', PNum 2)]
          [Bind ''fill'' ''status'' (Some BindingsFill)],
        Panel ''Vertical'' [(''margin'', PNum 8)]
          [TextBlock None [(''font'', PStr ''bold 14pt sans-serif'')]
             [Bind ''text'' ''name'' None],
           TextBlock None [(''font'', PStr ''10pt sans-serif'')]
             [Bind ''text'' ''status'' (Some BindingsText)]]]"

definition panelsAutoTemplate :: graphObject where
  "panelsAutoTemplate =
     Node ''Auto'' []
       [Shape (Some ''RoundedRectangle'')
          [(''fill'', PStr ''white''), (''stroke'', PStr ''#028090''), (''strokeWidth'', PNum 3)] [],
        TextBlock None
          [(''margin'', PNum 16), (''font'', PStr ''14pt sans-serif'')]
          [Bind ''text'' ''name'' None]]"

definition panelsSpotTemplate :: graphObject where
  "panelsSpotTemplate =
     Node ''Spot'' []
       [Shape (Some ''Circle'')
          [(''width'', PNum 60), (''height'', PNum 60), (''fill'', PStr ''#028090''),
           (''stroke'', PNull)] [],
        TextBlock None
          [(''stroke'', PStr ''white''), (''font'', PStr ''bold 12pt sans-serif'')]
          [Bind ''text'' ''name'' None],
        Shape (Some ''Circle'')
          [(''alignment'', PSpot TopRight), (''alignmentFocus'', PSpot Center),
           (''width'', PNum 20), (''height'', PNum 20), (''fill'', PStr ''red''),
           (''stroke'', PStr ''white''), (''strokeWidth'', PNum 2)] [],
        TextBlock (Some ''!'')
          [(''alignment'', PSpot TopRight), (''alignmentFocus'', PSpot Center),
           (''stroke'', PStr ''white''), (''font'', PStr ''bold 10pt sans-serif'')] []]"

definition panelsVerticalTemplate :: graphObject where
  "panelsVerticalTemplate =
     Node ''Auto'' []
       [Shape (Some ''RoundedRectangle'')
          [(''fill'', PStr ''white''), (''stroke'', PStr ''#028090''), (''strokeWidth'', PNum 2)] [],
        Panel ''Vertical'' [(''margin'', PNum 8)]
          [TextBlock None
             [(''font'', PStr ''bold 14pt sans-serif''), (''margin'', PMargin 0 0 4 0)]
             [Bind ''text'' ''name'' None],
           Panel ''Horizontal'' [(''defaultAlignment'', PSpot Left)]
             [Shape (Some ''Circle'')
                [(''width'', PNum 12), (''height'', PNum 12), (''margin'', PMargin 0 4 0 0)]
                [Bind ''fill'' ''status'' (Some VerticalFill)],
              TextBlock None [(''font'', PStr ''10pt sans-serif'')]
                [Bind ''text'' ''status'' None]],
           TextBlock None
             [(''font'', PStr ''italic 10pt sans-serif''), (''stroke'', PStr ''gray'')]
             [Bind ''text'' ''role'' None]]]"

definition compositionTemplate :: graphObject where
  "compositionTemplate =
     Node ''Auto'' []
       [Shape (Some ''RoundedRectangle'')
          [(''fill'', PStr ''white''), (''stroke'', PNull)]
          [Bind ''fill'' ''role'' (Some CompositionRoleFill)],
        Panel ''Vertical'' [(''margin'', PNum 12)]
          [Panel ''Horizontal''
             [(''background'', PStr ''#028090''), (''margin'', PMargin 0 0 8 0)]
             [TextBlock None
                [(''font'', PStr ''bold 14pt sans-serif''), (''stroke'', PStr ''white''),
                 (''margin'', PNum 6)]
                [Bind ''text'' ''name'' None],
              Shape (Some ''Circle'')
                [(''width'', PNum 8), (''height'', PNum 8), (''fill'', PStr ''white''),
                 (''margin'', PMargin 0 6 0 0)]
                [Bind ''visible'' ''role'' (Some CompositionVisible)]],
           Panel ''Horizontal'' []
             [Shape (Some ''RoundedRectangle'')
                [(''width'', PNum 60), (''height'', PNum 20), (''margin'', PMargin 0 4 0 0)]
                [Bind ''fill'' ''status'' (Some CompositionStatusFill)],
              TextBlock None
                [(''font'', PStr ''10pt sans-serif''), (''margin'', PMargin 0 0 0 (- 56))]
                [Bind ''text'' ''status'' (Some CompositionText)]]]]"

definition eventsTemplate :: graphObject where
  "eventsTemplate =
     Node ''Auto''
       [(''click'', PHandler Click), (''mouseEnter'', PHandler MouseEnter),
        (''mouseLeave'', PHandler MouseLeave)]
       [Shape (Some ''RoundedRectangle'')
          [(''name'', PStr ''SHAPE''), (''fill'', PStr ''lightblue''), (''stroke'', PStr ''black''),
           (''strokeWidth'', PNum 2), (''cursor'', PStr ''pointer'')] [],
        TextBlock None
          [(''margin'', PNum 12), (''font'', PStr ''14pt sans-serif'')]
          [Bind ''text'' ''name'' None]]"

text \<open>Every node template that \<^verbatim>\<open>loadExample\<close> can install, in the order of its cases.\<close>

definition nodeTemplates :: "graphObject list" where
  "nodeTemplates =
     [createBasicNodeTemplate, graphobjectBasicsTemplate, bindingsTemplate,
      panelsAutoTemplate, panelsSpotTemplate, panelsVerticalTemplate,
      compositionTemplate, eventsTemplate]"

section \<open>The examples catalogue\<close>

record example =
  ex_id :: string
  ex_name :: string

text \<open>The arrow of the first name is U+2192, three bytes in UTF-8.\<close>

definition arrow :: string where
  "arrow = [CHR 0xE2, CHR 0x86, CHR 0x92]"

definition examples :: "example list" where
  "examples =
     [\<lparr>ex_id = ''mental-model'',
       ex_name = ''Mental Model: Diagram '' @ arrow @ '' Model '' @ arrow @ '' Parts''\<rparr>,
      \<lparr>ex_id = ''graphobject-basics'', ex_name = ''GraphObject Basics''\<rparr>,
      \<lparr>ex_id = ''bindings'', ex_name = ''Bindings (null-safe)''\<rparr>,
      \<lparr>ex_id = ''panels-auto'', ex_name = ''Panel: Auto''\<rparr>,
      \<lparr>ex_id = ''panels-spot'', ex_name = ''Panel: Spot''\<rparr>,
      \<lparr>ex_id = ''panels-vertical'', ex_name = ''Panel: Vertical/Horizontal''\<rparr>,
      \<lparr>ex_id = ''composition'', ex_name = ''Composition Pattern''\<rparr>,
      \<lparr>ex_id = ''events'', ex_name = ''Events & Interactions''\<rparr>]"

section \<open>The graph model of the diagramming library\<close>

text \<open>
  The component edits its data through the model object of the diagramming library
  (\<^verbatim>\<open>addNodeData\<close>, \<^verbatim>\<open>removeNodeData\<close>, \<^verbatim>\<open>setDataProperty\<close>). The library is imported and
  its code is not in the repository, so its operations are modelled from sections 3, 4.3,
  4.4 and 4.5 of the specification. A graph is the ordered sequence of node records and
  the ordered sequence of link records; a record is identified by its key.
\<close>

type_synonym graph = "NodeData list \<times> LinkData list"

definition removeAt :: "nat \<Rightarrow> 'a list \<Rightarrow> 'a list" where
  "removeAt i xs = take i xs @ drop (Suc i) xs"

definition insertAt :: "nat \<Rightarrow> 'a \<Rightarrow> 'a list \<Rightarrow> 'a list" where
  "insertAt i x xs = take i xs @ x # drop i xs"

fun indexOf :: "('a \<Rightarrow> bool) \<Rightarrow> 'a list \<Rightarrow> nat option" where
  "indexOf P [] = None"
| "indexOf P (x # xs) = (if P x then Some 0 else map_option Suc (indexOf P xs))"

text \<open>
  Modelled from the spec: \<^verbatim>\<open>record[field] = value\<close> on a node record, the field update inside
  \<^verbatim>\<open>setDataProperty\<close>. The fields \<open>status\<close> and \<open>role\<close> take any value, \<open>name\<close> takes a
  string; the key is not changed this way, and a record has no further fields.
\<close>

definition setField :: "string \<Rightarrow> jsval \<Rightarrow> NodeData \<Rightarrow> NodeData" where
  "setField f v d =
     (if f = ''status'' then d\<lparr>status := v\<rparr>
      else if f = ''role'' then d\<lparr>role := v\<rparr>
      else if f = ''name'' then (case v of JStr s \<Rightarrow> d\<lparr>name := s\<rparr> | _ \<Rightarrow> d)
      else d)"

text \<open>
  Modelled from the spec: the atomic model edits of section 3 (add-node, remove-node,
  add-link, remove-link, set-property). Each descriptor holds what its inverse needs: the
  position a record was removed from, and the value a property had before.
\<close>

datatype edit =
    AddNodeEdit NodeData
  | RemoveNodeEdit nat NodeData
  | AddLinkEdit LinkData
  | RemoveLinkEdit nat LinkData
  | SetPropertyEdit nat string jsval jsval

text \<open>Modelled from the spec: applying an edit to the graph.\<close>

fun redoEdit :: "edit \<Rightarrow> graph \<Rightarrow> graph" where
  "redoEdit (AddNodeEdit d) (ns, ls) = (ns @ [d], ls)"
| "redoEdit (RemoveNodeEdit i d) (ns, ls) = (removeAt i ns, ls)"
| "redoEdit (AddLinkEdit l) (ns, ls) = (ns, ls @ [l])"
| "redoEdit (RemoveLinkEdit i l) (ns, ls) = (ns, removeAt i ls)"
| "redoEdit (SetPropertyEdit i f old new) (ns, ls) =
     (if i < length ns then (ns[i := setField f new (ns ! i)], ls) else (ns, ls))"

text \<open>Modelled from the spec: applying the inverse of an edit.\<close>

fun undoEdit :: "edit \<Rightarrow> graph \<Rightarrow> graph" where
  "undoEdit (AddNodeEdit d) (ns, ls) = (butlast ns, ls)"
| "undoEdit (RemoveNodeEdit i d) (ns, ls) = (insertAt i d ns, ls)"
| "undoEdit (AddLinkEdit l) (ns, ls) = (ns, butlast ls)"
| "undoEdit (RemoveLinkEdit i l) (ns, ls) = (ns, insertAt i l ls)"
| "undoEdit (SetPropertyEdit i f old new) (ns, ls) =
     (if i < length ns then (ns[i := setField f old (ns ! i)], ls) else (ns, ls))"

text \<open>
  Modelled from the spec: a sequence of edits applied in order, and its inverse edits
  applied in reverse order (section 4.4).
\<close>

fun applyEdits :: "edit list \<Rightarrow> graph \<Rightarrow> graph" where
  "applyEdits [] g = g"
| "applyEdits (e # es) g = applyEdits es (redoEdit e g)"

fun revertEdits :: "edit list \<Rightarrow> graph \<Rightarrow> graph" where
  "revertEdits [] g = g"
| "revertEdits (e # es) g = undoEdit e (revertEdits es g)"

text \<open>
  A descriptor fits a graph when it describes what applying it there does: the record it
  removes is at the position it names, and the old value it holds is the field's value.
\<close>

fun validEdit :: "edit \<Rightarrow> graph \<Rightarrow> bool" where
  "validEdit (AddNodeEdit d) (ns, ls) = True"
| "validEdit (RemoveNodeEdit i d) (ns, ls) = (i < length ns \<and> ns ! i = d)"
| "validEdit (AddLinkEdit l) (ns, ls) = True"
| "validEdit (RemoveLinkEdit i l) (ns, ls) = (i < length ls \<and> ls ! i = l)"
| "validEdit (SetPropertyEdit i f old new) (ns, ls) =
     (i < length ns \<and> fieldValue f (ns ! i) = old)"

fun validEdits :: "edit list \<Rightarrow> graph \<Rightarrow> bool" where
  "validEdits [] g = True"
| "validEdits (e # es) g = (validEdit e g \<and> validEdits es (redoEdit e g))"

text \<open>
  Modelled from the spec: \<^verbatim>\<open>addNodeData(record)\<close> appends the record and fails with
  DuplicateKey if the key already exists. (A \<open>NodeData\<close> always carries its key, so the
  case of an absent key does not arise.)
\<close>

definition addNodeData :: "NodeData \<Rightarrow> graph \<Rightarrow> error + edit list" where
  "addNodeData d g =
     (if key d \<in> set (map key (fst g)) then Inl DuplicateKey else Inr [AddNodeEdit d])"

text \<open>
  Modelled from the spec: \<^verbatim>\<open>removeNodeData(record)\<close> removes the node and cascades removal
  of every link referencing it; UnknownRecord for a record that is not in the model. The
  links that reference the key are removed one by one, the last first, then the node.
\<close>

definition references :: "jsnum \<Rightarrow> LinkData \<Rightarrow> bool" where
  "references k l = (link_from l = k \<or> link_to l = k)"

fun cascadeFromLast :: "jsnum \<Rightarrow> LinkData list \<Rightarrow> edit list" where
  "cascadeFromLast k [] = []"
| "cascadeFromLast k (l # earlier) =
     (if references k l then RemoveLinkEdit (length earlier) l # cascadeFromLast k earlier
      else cascadeFromLast k earlier)"

definition cascadeEdits :: "jsnum \<Rightarrow> LinkData list \<Rightarrow> edit list" where
  "cascadeEdits k ls = cascadeFromLast k (rev ls)"

definition removeNodeData :: "jsnum \<Rightarrow> graph \<Rightarrow> error + edit list" where
  "removeNodeData k g =
     (case indexOf (\<lambda>d. key d = k) (fst g) of
        None \<Rightarrow> Inl UnknownRecord
      | Some i \<Rightarrow> Inr (cascadeEdits k (snd g) @ [RemoveNodeEdit i (fst g ! i)]))"

text \<open>
  Modelled from the spec: \<^verbatim>\<open>addLinkData\<close> and \<^verbatim>\<open>removeLinkData\<close>. A link whose end is not
  a node of the model is still added (the soft invariant of section 3).
\<close>

definition addLinkData :: "LinkData \<Rightarrow> graph \<Rightarrow> error + edit list" where
  "addLinkData l g = Inr [AddLinkEdit l]"

definition removeLinkData :: "LinkData \<Rightarrow> graph \<Rightarrow> error + edit list" where
  "removeLinkData l g =
     (case indexOf (\<lambda>x. x = l) (snd g) of
        None \<Rightarrow> Inl UnknownRecord
      | Some i \<Rightarrow> Inr [RemoveLinkEdit i l])"

text \<open>
  Modelled from the spec: \<^verbatim>\<open>setDataProperty(record, field, value)\<close> sets the field; when
  the value is unchanged the edit is still recorded.
\<close>

definition setDataProperty :: "jsnum \<Rightarrow> string \<Rightarrow> jsval \<Rightarrow> graph \<Rightarrow> error + edit list" where
  "setDataProperty k f v g =
     (case indexOf (\<lambda>d. key d = k) (fst g) of
        None \<Rightarrow> Inl UnknownRecord
      | Some i \<Rightarrow> Inr [SetPropertyEdit i f (fieldValue f (fst g ! i)) v])"

text \<open>
  Modelled from the spec: the undo manager of section 4.4. It is Idle when \<open>recording\<close>
  is \<open>None\<close> and Recording with the edit buffer \<open>b\<close> when it is \<open>Some b\<close>; a committed
  transaction is its list of edits, the most recent first on each stack.
\<close>

record UndoManager =
  recording :: "edit list option"
  undoStack :: "edit list list"
  redoStack :: "edit list list"

text \<open>
  Modelled from the spec: a part is a selectable node or link backed by a record
  (section 4.5); a node part is identified by the key of its record, a link part by its
  pair of ends.
\<close>

datatype part = NodePart jsnum | LinkPart LinkData

fun partExists :: "graph \<Rightarrow> part \<Rightarrow> bool" where
  "partExists (ns, ls) (NodePart k) = (k \<in> set (map key ns))"
| "partExists (ns, ls) (LinkPart l) = (l \<in> set ls)"

section \<open>The component\<close>

text \<open>
  The component keeps its two data arrays in \<^verbatim>\<open>readonly\<close> fields and hands the arrays
  themselves to each model it builds (\<^verbatim>\<open>updateModel\<close>); the model edits them in place, and
  \<^verbatim>\<open>addNode\<close> reads \<^verbatim>\<open>this.nodeDataArray\<close> again. Which array a field refers to therefore
  matters: arrays live in a store (\<open>nodeArrays\<close>, \<open>linkArrays\<close>) and the fields hold
  references into it.
\<close>

record GraphLinksModel =
  model_nodeDataArray :: nat
  model_linkDataArray :: nat

record TreeLayout =
  angle :: int
  layerSpacing :: int

record Diagram =
  layout :: TreeLayout
  nodeTemplate :: graphObject
  linkTemplate :: graphObject
  model :: GraphLinksModel
  selection :: "part list"
  undoManager :: UndoManager

record AppComponent =
  title :: string
  currentExample :: string
  nodeDataArray :: nat
  linkDataArray :: nat
  diagram :: Diagram
  nodeArrays :: "nat \<Rightarrow> NodeData list"
  linkArrays :: "nat \<Rightarrow> LinkData list"

definition modelNodes :: "AppComponent \<Rightarrow> NodeData list" where
  "modelNodes a = nodeArrays a (model_nodeDataArray (model (diagram a)))"

definition modelLinks :: "AppComponent \<Rightarrow> LinkData list" where
  "modelLinks a = linkArrays a (model_linkDataArray (model (diagram a)))"

definition modelGraph :: "AppComponent \<Rightarrow> graph" where
  "modelGraph a = (modelNodes a, modelLinks a)"

text \<open>Writing the arrays of the diagram's model, in place.\<close>

definition setModelGraph :: "graph \<Rightarrow> AppComponent \<Rightarrow> AppComponent" where
  "setModelGraph g a =
     a\<lparr>nodeArrays := (nodeArrays a)(model_nodeDataArray (model (diagram a)) := fst g),
       linkArrays := (linkArrays a)(model_linkDataArray (model (diagram a)) := snd g)\<rparr>"

text \<open>
  Modelled from the spec: a part is derived from its record, and destroying the record
  discards it (section 3), so after an edit the selection keeps the parts that still exist.
\<close>

definition syncSelection :: "AppComponent \<Rightarrow> AppComponent" where
  "syncSelection a =
     a\<lparr>diagram := (diagram a)\<lparr>selection :=
         filter (partExists (modelGraph a)) (selection (diagram a))\<rparr>\<rparr>"

text \<open>
  Modelled from the spec: a mutating operation applies its edits immediately and, when
  invoked inside an active transaction, appends their descriptors to the edit buffer
  (section 4.3). A mutation made through an operation of the graph model stays undoable
  (section 4.5), also when no transaction is open, as in the scenario of section 8 where
  \<^verbatim>\<open>toggleStatus\<close> is followed by \<^verbatim>\<open>undo\<close>; and \<^verbatim>\<open>undo\<close> pops committed transactions
  (section 4.4). So an operation invoked while Idle is a committed transaction of its own:
  its edits are pushed onto the undo stack and, as for every commit, the redo stack is
  cleared. A failed operation leaves everything unchanged (section 7).
\<close>

definition record_edits :: "edit list \<Rightarrow> UndoManager \<Rightarrow> UndoManager" where
  "record_edits es um =
     (case recording um of
        None \<Rightarrow> um\<lparr>undoStack := es # undoStack um, redoStack := []\<rparr>
      | Some b \<Rightarrow> um\<lparr>recording := Some (b @ es)\<rparr>)"

definition performEdits :: "edit list \<Rightarrow> AppComponent \<Rightarrow> AppComponent" where
  "performEdits es a =
     (let a1 = syncSelection (setModelGraph (applyEdits es (modelGraph a)) a)
      in a1\<lparr>diagram := (diagram a1)\<lparr>undoManager :=
               record_edits es (undoManager (diagram a1))\<rparr>\<rparr>)"

definition modelCall ::
  "(graph \<Rightarrow> error + edit list) \<Rightarrow> AppComponent \<Rightarrow> error + AppComponent" where
  "modelCall operation a =
     (case operation (modelGraph a) of
        Inl e \<Rightarrow> Inl e
      | Inr es \<Rightarrow> Inr (performEdits es a))"

text \<open>
  Modelled from the spec: the transitions of the undo manager (section 4.4).
  \<^verbatim>\<open>startTransaction\<close> fails with AlreadyRecording while Recording; \<^verbatim>\<open>commitTransaction\<close>
  pushes the buffer onto the undo stack and clears the redo stack; \<^verbatim>\<open>rollbackTransaction\<close>
  reverts the buffered edits without pushing. Outside Recording the last two have no
  transition and change nothing.
\<close>

definition startTransaction :: "AppComponent \<Rightarrow> error + AppComponent" where
  "startTransaction a =
     (case recording (undoManager (diagram a)) of
        Some b \<Rightarrow> Inl AlreadyRecording
      | None \<Rightarrow> Inr (a\<lparr>diagram := (diagram a)\<lparr>undoManager :=
                         (undoManager (diagram a))\<lparr>recording := Some []\<rparr>\<rparr>\<rparr>))"

definition commitTransaction :: "AppComponent \<Rightarrow> AppComponent" where
  "commitTransaction a =
     (case recording (undoManager (diagram a)) of
        None \<Rightarrow> a
      | Some b \<Rightarrow> a\<lparr>diagram := (diagram a)\<lparr>undoManager :=
                    \<lparr>recording = None,
                     undoStack = b # undoStack (undoManager (diagram a)),
                     redoStack = []\<rparr>\<rparr>\<rparr>)"

definition rollbackTransaction :: "AppComponent \<Rightarrow> AppComponent" where
  "rollbackTransaction a =
     (case recording (undoManager (diagram a)) of
        None \<Rightarrow> a
      | Some b \<Rightarrow>
          (let a1 = syncSelection (setModelGraph (revertEdits b (modelGraph a)) a)
           in a1\<lparr>diagram := (diagram a1)\<lparr>undoManager :=
                    (undoManager (diagram a1))\<lparr>recording := None\<rparr>\<rparr>\<rparr>))"

text \<open>
  Modelled from the spec: \<^verbatim>\<open>undo()\<close> pops the most recent committed transaction, applies
  its inverse edits in reverse order and pushes it onto the redo stack; with an empty undo
  stack it changes nothing and signals NothingToUndo. \<^verbatim>\<open>redo()\<close> is the mirror operation.
\<close>

definition undo :: "AppComponent \<Rightarrow> error + AppComponent" where
  "undo a =
     (case undoStack (undoManager (diagram a)) of
        [] \<Rightarrow> Inl NothingToUndo
      | t # ts \<Rightarrow>
          (let a1 = syncSelection (setModelGraph (revertEdits t (modelGraph a)) a)
           in Inr (a1\<lparr>diagram := (diagram a1)\<lparr>undoManager :=
                    (undoManager (diagram a1))
                      \<lparr>undoStack := ts,
                       redoStack := t # redoStack (undoManager (diagram a1))\<rparr>\<rparr>\<rparr>)))"

definition redo :: "AppComponent \<Rightarrow> error + AppComponent" where
  "redo a =
     (case redoStack (undoManager (diagram a)) of
        [] \<Rightarrow> Inl NothingToRedo
      | t # ts \<Rightarrow>
          (let a1 = syncSelection (setModelGraph (applyEdits t (modelGraph a)) a)
           in Inr (a1\<lparr>diagram := (diagram a1)\<lparr>undoManager :=
                    (undoManager (diagram a1))
                      \<lparr>redoStack := ts,
                       undoStack := t # undoStack (undoManager (diagram a1))\<rparr>\<rparr>\<rparr>)))"

text \<open>
  Modelled from the spec: \<^verbatim>\<open>select(part)\<close> replaces the primary selection (section 4.5).
  A pointer click selects the part under it, so only a part that exists.
\<close>

definition select :: "part \<Rightarrow> AppComponent \<Rightarrow> AppComponent" where
  "select p a = a\<lparr>diagram := (diagram a)\<lparr>selection := [p]\<rparr>\<rparr>"

definition clickPart :: "part \<Rightarrow> AppComponent \<Rightarrow> AppComponent" where
  "clickPart p a = (if partExists (modelGraph a) p then select p a else a)"

text \<open>\<^verbatim>\<open>selection.first()\<close>: the first selected part, \<^verbatim>\<open>null\<close> when there is none.\<close>

fun first :: "'a list \<Rightarrow> 'a option" where
  "first [] = None"
| "first (x # xs) = Some x"

subsection \<open>Start-up\<close>

definition sampleNodes :: "NodeData list" where
  "sampleNodes =
     [\<lparr>key = Num 1, name = ''Alice'', status = JStr ''active'', role = JStr ''manager''\<rparr>,
      \<lparr>key = Num 2, name = ''Bob'', status = JStr ''active'', role = JStr ''employee''\<rparr>,
      \<lparr>key = Num 3, name = ''Charlie'', status = JStr ''inactive'', role = JStr ''employee''\<rparr>]"

definition sampleLinks :: "LinkData list" where
  "sampleLinks =
     [\<lparr>link_from = Num 1, link_to = Num 2\<rparr>, \<lparr>link_from = Num 1, link_to = Num 3\<rparr>]"

text \<open>
  The component once \<^verbatim>\<open>initDiagram\<close> has run: its field initialisers (the sample arrays are
  at reference 0) and the new diagram, with the undo manager enabled and Idle, the tree
  layout, the basic node template and the link template. A new diagram has an empty model
  of its own (reference 1) until \<^verbatim>\<open>updateModel\<close> installs one.
\<close>

definition initDiagram :: AppComponent where
  "initDiagram =
     \<lparr>title = ''GoJS Fundamentals Workshop'',
      currentExample = ''mental-model'',
      nodeDataArray = 0,
      linkDataArray = 0,
      diagram =
        \<lparr>layout = \<lparr>angle = 90, layerSpacing = 50\<rparr>,
         nodeTemplate = createBasicNodeTemplate,
         linkTemplate = linkTemplateInit,
         model = \<lparr>model_nodeDataArray = 1, model_linkDataArray = 1\<rparr>,
         selection = [],
         undoManager = \<lparr>recording = None, undoStack = [], redoStack = []\<rparr>\<rparr>,
      nodeArrays = (\<lambda>r. [])(0 := sampleNodes),
      linkArrays = (\<lambda>r. [])(0 := sampleLinks)\<rparr>"

subsection \<open>Choosing an example\<close>

text \<open>
  \<^verbatim>\<open>updateModel\<close> builds a model over the component's own two arrays and assigns it to the
  diagram. Modelled from the spec: the selection is cleared on model reset (section 3);
  nothing else is said to be cleared.
\<close>

definition updateModel :: "AppComponent \<Rightarrow> AppComponent" where
  "updateModel a =
     a\<lparr>diagram := (diagram a)
         \<lparr>model := \<lparr>model_nodeDataArray = nodeDataArray a,
                    model_linkDataArray = linkDataArray a\<rparr>,
          selection := []\<rparr>\<rparr>"

definition setNodeTemplate :: "graphObject \<Rightarrow> AppComponent \<Rightarrow> AppComponent" where
  "setNodeTemplate t a = a\<lparr>diagram := (diagram a)\<lparr>nodeTemplate := t\<rparr>\<rparr>"

text \<open>The \<^verbatim>\<open>switch\<close> of \<^verbatim>\<open>loadExample\<close>; it has no \<^verbatim>\<open>default\<close> case.\<close>

definition loadExample :: "string \<Rightarrow> AppComponent \<Rightarrow> AppComponent" where
  "loadExample exampleId a =
     (if exampleId = ''mental-model'' then updateModel (setNodeTemplate createBasicNodeTemplate a)
      else if exampleId = ''graphobject-basics'' then
        updateModel (setNodeTemplate graphobjectBasicsTemplate a)
      else if exampleId = ''bindings'' then updateModel (setNodeTemplate bindingsTemplate a)
      else if exampleId = ''panels-auto'' then updateModel (setNodeTemplate panelsAutoTemplate a)
      else if exampleId = ''panels-spot'' then updateModel (setNodeTemplate panelsSpotTemplate a)
      else if exampleId = ''panels-vertical'' then
        updateModel (setNodeTemplate panelsVerticalTemplate a)
      else if exampleId = ''composition'' then updateModel (setNodeTemplate compositionTemplate a)
      else if exampleId = ''events'' then updateModel (setNodeTemplate eventsTemplate a)
      else a)"

definition selectExample :: "string \<Rightarrow> AppComponent \<Rightarrow> AppComponent" where
  "selectExample exampleId a = loadExample exampleId (a\<lparr>currentExample := exampleId\<rparr>)"

definition ngAfterViewInit :: AppComponent where
  "ngAfterViewInit = loadExample ''mental-model'' initDiagram"

text \<open>\<^verbatim>\<open>examples.find(e => e.id === currentExample())?.name\<close>; \<open>None\<close> is \<^verbatim>\<open>undefined\<close>.\<close>

definition currentExampleName :: "AppComponent \<Rightarrow> string option" where
  "currentExampleName a =
     map_option ex_name (find (\<lambda>e. ex_id e = currentExample a) examples)"

subsection \<open>The edit buttons\<close>

text \<open>
  \<^verbatim>\<open>addNode\<close> computes \<^verbatim>\<open>Math.max(...this.nodeDataArray.map(n => n.key)) + 1\<close> from the
  component's array and hands a record with that key to the model of the diagram.
  (\<^verbatim>\<open>logModelData\<close> and \<^verbatim>\<open>logSelectedPart\<close> only print to the console and are left out.)
\<close>

definition newKey :: "AppComponent \<Rightarrow> jsnum" where
  "newKey a = plus_one (Math_max (map key (nodeArrays a (nodeDataArray a))))"

definition addNode :: "AppComponent \<Rightarrow> error + AppComponent" where
  "addNode a =
     modelCall
       (addNodeData
          \<lparr>key = newKey a,
           name = ''Person '' @ toString (newKey a),
           status = JStr ''active'',
           role = JStr ''employee''\<rparr>) a"

text \<open>
  \<^verbatim>\<open>selectedNode instanceof go.Node\<close> holds for a node part only: not for \<^verbatim>\<open>null\<close> and not
  for a link.
\<close>

definition removeSelectedNode :: "AppComponent \<Rightarrow> error + AppComponent" where
  "removeSelectedNode a =
     (case first (selection (diagram a)) of
        Some (NodePart k) \<Rightarrow> modelCall (removeNodeData k) a
      | _ \<Rightarrow> Inr a)"

text \<open>
  \<^verbatim>\<open>selectedNode.data\<close>: the record of the model that a node part stands for. A part that
  is selected has one (a click selects a part that exists, and an edit drops the parts of
  the records it removes); were there none, the model would be asked about a record it
  does not hold, which is UnknownRecord.
\<close>

definition partData :: "AppComponent \<Rightarrow> jsnum \<Rightarrow> NodeData option" where
  "partData a k = find (\<lambda>d. key d = k) (modelNodes a)"

definition toggleStatus :: "AppComponent \<Rightarrow> error + AppComponent" where
  "toggleStatus a =
     (case first (selection (diagram a)) of
        Some (NodePart k) \<Rightarrow>
          (case partData a k of
             None \<Rightarrow> Inl UnknownRecord
           | Some d \<Rightarrow>
               modelCall
                 (setDataProperty k ''status''
                    (if status d = JStr ''active'' then JStr ''inactive'' else JStr ''active'')) a)
      | _ \<Rightarrow> Inr a)"

subsection \<open>Sequences of user actions\<close>

text \<open>
  What a user does between start-up and any later moment: presses one of the buttons,
  picks an example, or clicks a part. An action that fails leaves the state as it was.
\<close>

datatype action =
    AddNode
  | RemoveSelectedNode
  | ToggleStatus
  | SelectExample string
  | ClickPart part

definition orUnchanged :: "AppComponent \<Rightarrow> error + AppComponent \<Rightarrow> AppComponent" where
  "orUnchanged a r = (case r of Inl e \<Rightarrow> a | Inr a' \<Rightarrow> a')"

fun step :: "action \<Rightarrow> AppComponent \<Rightarrow> AppComponent" where
  "step AddNode a = orUnchanged a (addNode a)"
| "step RemoveSelectedNode a = orUnchanged a (removeSelectedNode a)"
| "step ToggleStatus a = orUnchanged a (toggleStatus a)"
| "step (SelectExample exampleId) a = selectExample exampleId a"
| "step (ClickPart p) a = clickPart p a"

fun run :: "action list \<Rightarrow> AppComponent \<Rightarrow> AppComponent" where
  "run [] a = a"
| "run (x # xs) a = run xs (step x a)"

text \<open>A sequence of presses of the add and remove buttons alone, with no click on a part.\<close>

fun buttonsOnly :: "action list \<Rightarrow> bool" where
  "buttonsOnly [] = True"
| "buttonsOnly (AddNode # xs) = buttonsOnly xs"
| "buttonsOnly (RemoveSelectedNode # xs) = buttonsOnly xs"
| "buttonsOnly (x # xs) = False"

text \<open>
  The diagram's model is built over the component's own arrays: true from \<^verbatim>\<open>updateModel\<close>
  on, so after start-up.
\<close>

definition aliased :: "AppComponent \<Rightarrow> bool" where
  "aliased a =
     (model_nodeDataArray (model (diagram a)) = nodeDataArray a \<and>
      model_linkDataArray (model (diagram a)) = linkDataArray a)"

subsection \<open>Sequences of model edits\<close>

text \<open>
  The calls a transaction can hold, on the diagram's model. A call that fails leaves the
  state as it was.
\<close>

datatype modelOp =
    AddNodeData NodeData
  | RemoveNodeData jsnum
  | AddLinkData LinkData
  | RemoveLinkData LinkData
  | SetDataProperty jsnum string jsval

fun modelOpEdits :: "modelOp \<Rightarrow> graph \<Rightarrow> error + edit list" where
  "modelOpEdits (AddNodeData d) g = addNodeData d g"
| "modelOpEdits (RemoveNodeData k) g = removeNodeData k g"
| "modelOpEdits (AddLinkData l) g = addLinkData l g"
| "modelOpEdits (RemoveLinkData l) g = removeLinkData l g"
| "modelOpEdits (SetDataProperty k f v) g = setDataProperty k f v g"

fun applyOps :: "modelOp list \<Rightarrow> AppComponent \<Rightarrow> AppComponent" where
  "applyOps [] a = a"
| "applyOps (x # xs) a = applyOps xs (orUnchanged a (modelCall (modelOpEdits x) a))"

section \<open>Binding converters on a missing field\<close>

text \<open>
  Claim C8. For every binding converter declared in the templates, evaluating the converter
  when the source field of the record is missing or undefined does not throw: the result
  is the converter's own fallback value (the value of its else branch, such as
  \<^verbatim>\<open>'lightcoral'\<close> or \<^verbatim>\<open>'N/A'\<close>), or \<^verbatim>\<open>undefined\<close> for the converter that has none.
\<close>

theorem converters_null_safe:
  assumes "Bind target source (Some c) \<in> set (concat (map bindingsOf nodeTemplates))"
    and "fieldValue source d = JUndefined"
  shows "convert c (fieldValue source d) =
     Inr (case c of
            BindingsFill \<Rightarrow> JStr ''lightcoral''
          | BindingsText \<Rightarrow> JStr ''N/A''
          | VerticalFill \<Rightarrow> JStr ''gray''
          | CompositionRoleFill \<Rightarrow> JStr ''white''
          | CompositionVisible \<Rightarrow> JBool False
          | CompositionStatusFill \<Rightarrow> JStr ''#FEE2E2''
          | CompositionText \<Rightarrow> JUndefined)"
  unfolding assms(2) by (cases c) (simp_all add: or_else_def)

theorem converters_null_safe_witness:
  "Bind ''text'' ''status'' (Some BindingsText) \<in> set (concat (map bindingsOf nodeTemplates)) \<and>
   fieldValue ''status'' \<lparr>key = Num 7, name = ''Eve'', status = JUndefined, role = JUndefined\<rparr>
     = JUndefined \<and>
   convert BindingsText
     (fieldValue ''status'' \<lparr>key = Num 7, name = ''Eve'', status = JUndefined, role = JUndefined\<rparr>)
     = Inr (JStr ''N/A'')"
proof -
  have m: "Bind ''text'' ''status'' (Some BindingsText)
      \<in> set (concat (map bindingsOf nodeTemplates))"
    by (simp add: nodeTemplates_def bindingsTemplate_def)
  have f: "fieldValue ''status''
      \<lparr>key = Num 7, name = ''Eve'', status = JUndefined, role = JUndefined\<rparr> = JUndefined"
    by (simp add: fieldValue_def)
  from converters_null_safe [OF m f] m f show ?thesis by simp
qed

text \<open>
  The templates declare all seven converters, and what makes one of them throw is a value
  that is neither a string nor missing.
\<close>

lemma template_converters:
  "set (concat (map convertersOf nodeTemplates)) =
     {BindingsFill, BindingsText, VerticalFill, CompositionRoleFill, CompositionVisible,
      CompositionStatusFill, CompositionText}"
  by (simp add: nodeTemplates_def convertersOf_def createBasicNodeTemplate_def
      graphobjectBasicsTemplate_def bindingsTemplate_def panelsAutoTemplate_def
      panelsSpotTemplate_def panelsVerticalTemplate_def compositionTemplate_def
      eventsTemplate_def insert_commute)

lemma converter_throws_on_number: "convert CompositionText (JNumber (Num 5)) = Inl TypeError"
  by simp

section \<open>Choosing an example\<close>

lemma currentExample_loadExample: "currentExample (loadExample x a) = currentExample a"
  by (simp add: loadExample_def updateModel_def setNodeTemplate_def)

text \<open>
  Claim C9. For every string, also one that is not in the examples catalogue,
  \<^verbatim>\<open>selectExample\<close> sets \<^verbatim>\<open>currentExample\<close> to it; so \<^verbatim>\<open>currentExampleName\<close> is the
  catalogue name when the string is the id of an example and \<^verbatim>\<open>undefined\<close> otherwise.
\<close>

theorem selectExample_sets_currentExample:
  "currentExample (selectExample x a) = x \<and>
   (x \<notin> set (map ex_id examples) \<longrightarrow> currentExampleName (selectExample x a) = None) \<and>
   (\<forall>e \<in> set examples. ex_id e = x \<longrightarrow>
      currentExampleName (selectExample x a) = Some (ex_name e))"
proof -
  have c: "currentExample (selectExample x a) = x"
    by (simp add: selectExample_def currentExample_loadExample)
  have n: "x \<notin> set (map ex_id examples) \<longrightarrow> currentExampleName (selectExample x a) = None"
    by (auto simp add: currentExampleName_def c find_None_iff)
  have k: "\<forall>e \<in> set examples. ex_id e = x \<longrightarrow>
      currentExampleName (selectExample x a) = Some (ex_name e)"
    unfolding currentExampleName_def c by (auto simp add: examples_def)
  from c n k show ?thesis by blast
qed

theorem selectExample_sets_currentExample_witness:
  "''no-such-example'' \<notin> set (map ex_id examples) \<and>
   currentExample (selectExample ''no-such-example'' ngAfterViewInit) = ''no-such-example'' \<and>
   currentExampleName (selectExample ''no-such-example'' ngAfterViewInit) = None \<and>
   \<lparr>ex_id = ''bindings'', ex_name = ''Bindings (null-safe)''\<rparr> \<in> set examples \<and>
   currentExample (selectExample ''bindings'' ngAfterViewInit) = ''bindings'' \<and>
   currentExampleName (selectExample ''bindings'' ngAfterViewInit)
     = Some ''Bindings (null-safe)''"
proof -
  have u: "''no-such-example'' \<notin> set (map ex_id examples)"
    by (simp add: examples_def)
  have m: "\<lparr>ex_id = ''bindings'', ex_name = ''Bindings (null-safe)''\<rparr> \<in> set examples"
    by (simp add: examples_def)
  from selectExample_sets_currentExample [of "''no-such-example''" ngAfterViewInit] u
  have 1: "currentExample (selectExample ''no-such-example'' ngAfterViewInit)
        = ''no-such-example'' \<and>
      currentExampleName (selectExample ''no-such-example'' ngAfterViewInit) = None"
    by blast
  from selectExample_sets_currentExample [of "''bindings''" ngAfterViewInit] m
  have 2: "currentExample (selectExample ''bindings'' ngAfterViewInit) = ''bindings'' \<and>
      currentExampleName (selectExample ''bindings'' ngAfterViewInit)
        = Some ''Bindings (null-safe)''"
    by fastforce
  from u m 1 2 show ?thesis by blast
qed

text \<open>
  Claim C5, as stated: for an id that is not a known example, \<^verbatim>\<open>selectExample\<close> leaves all
  observable state unchanged. It does not: \<^verbatim>\<open>currentExample\<close> is set before the id is
  looked at, so after start-up an unknown id changes the component.
\<close>

theorem selectExample_unknown_counterexample:
  "''no-such-example'' \<notin> set (map ex_id examples) \<and>
   currentExample ngAfterViewInit = ''mental-model'' \<and>
   currentExample (selectExample ''no-such-example'' ngAfterViewInit) = ''no-such-example'' \<and>
   selectExample ''no-such-example'' ngAfterViewInit \<noteq> ngAfterViewInit"
proof -
  have 1: "''no-such-example'' \<notin> set (map ex_id examples)"
    by (simp add: examples_def)
  have 2: "currentExample ngAfterViewInit = ''mental-model''"
    by (simp add: ngAfterViewInit_def currentExample_loadExample initDiagram_def)
  have 3: "currentExample (selectExample ''no-such-example'' ngAfterViewInit)
      = ''no-such-example''"
    by (simp add: selectExample_def currentExample_loadExample)
  have 4: "selectExample ''no-such-example'' ngAfterViewInit \<noteq> ngAfterViewInit"
  proof
    assume "selectExample ''no-such-example'' ngAfterViewInit = ngAfterViewInit"
    then have "currentExample (selectExample ''no-such-example'' ngAfterViewInit)
        = currentExample ngAfterViewInit"
      by simp
    with 2 3 show False by simp
  qed
  from 1 2 3 4 show ?thesis by blast
qed

text \<open>
  Claim C5, amended. For an id that is not a known example, \<^verbatim>\<open>selectExample\<close> does not
  throw and changes nothing but \<^verbatim>\<open>currentExample\<close>, which it sets to the id: the diagram
  (node template, model, selection, undo history) and the data arrays stay as they were.
\<close>

theorem selectExample_unknown:
  assumes "x \<notin> set (map ex_id examples)"
  shows "selectExample x a = a\<lparr>currentExample := x\<rparr>"
  using assms by (simp add: selectExample_def loadExample_def examples_def)

theorem selectExample_unknown_witness:
  "''no-such-example'' \<notin> set (map ex_id examples) \<and>
   selectExample ''no-such-example'' ngAfterViewInit
     = ngAfterViewInit\<lparr>currentExample := ''no-such-example''\<rparr>"
proof -
  have u: "''no-such-example'' \<notin> set (map ex_id examples)"
    by (simp add: examples_def)
  from selectExample_unknown [OF u, of ngAfterViewInit] u show ?thesis by blast
qed

section \<open>The state after start-up\<close>

lemma selection_ngAfterViewInit: "selection (diagram ngAfterViewInit) = []"
  by (simp add: ngAfterViewInit_def loadExample_def updateModel_def)

lemma modelGraph_ngAfterViewInit: "modelGraph ngAfterViewInit = (sampleNodes, sampleLinks)"
  by (simp add: ngAfterViewInit_def loadExample_def updateModel_def setNodeTemplate_def
      modelGraph_def modelNodes_def modelLinks_def initDiagram_def)

section \<open>The edit buttons without a selected node\<close>

text \<open>
  Claim C4. When no part is selected, or the first selected part is a link and not a node,
  \<^verbatim>\<open>removeSelectedNode\<close> and \<^verbatim>\<open>toggleStatus\<close> return normally and leave the whole state
  (data, selection, undo manager and everything else) unchanged.
\<close>

theorem no_node_selected_noop:
  assumes "first (selection (diagram a)) = None \<or>
           (\<exists>l. first (selection (diagram a)) = Some (LinkPart l))"
  shows "removeSelectedNode a = Inr a \<and> toggleStatus a = Inr a"
  using assms by (auto simp add: removeSelectedNode_def toggleStatus_def)

theorem no_node_selected_noop_witness:
  "first (selection (diagram ngAfterViewInit)) = None \<and>
   removeSelectedNode ngAfterViewInit = Inr ngAfterViewInit \<and>
   toggleStatus ngAfterViewInit = Inr ngAfterViewInit \<and>
   first (selection (diagram
     (clickPart (LinkPart \<lparr>link_from = Num 1, link_to = Num 2\<rparr>) ngAfterViewInit)))
     = Some (LinkPart \<lparr>link_from = Num 1, link_to = Num 2\<rparr>) \<and>
   removeSelectedNode (clickPart (LinkPart \<lparr>link_from = Num 1, link_to = Num 2\<rparr>) ngAfterViewInit)
     = Inr (clickPart (LinkPart \<lparr>link_from = Num 1, link_to = Num 2\<rparr>) ngAfterViewInit) \<and>
   toggleStatus (clickPart (LinkPart \<lparr>link_from = Num 1, link_to = Num 2\<rparr>) ngAfterViewInit)
     = Inr (clickPart (LinkPart \<lparr>link_from = Num 1, link_to = Num 2\<rparr>) ngAfterViewInit)"
proof -
  have n: "first (selection (diagram ngAfterViewInit)) = None"
    by (simp add: selection_ngAfterViewInit)
  have l: "first (selection (diagram
      (clickPart (LinkPart \<lparr>link_from = Num 1, link_to = Num 2\<rparr>) ngAfterViewInit)))
      = Some (LinkPart \<lparr>link_from = Num 1, link_to = Num 2\<rparr>)"
    by (simp add: clickPart_def modelGraph_ngAfterViewInit sampleLinks_def select_def)
  from no_node_selected_noop [of ngAfterViewInit] n
    no_node_selected_noop
      [of "clickPart (LinkPart \<lparr>link_from = Num 1, link_to = Num 2\<rparr>) ngAfterViewInit"] l
  show ?thesis by blast
qed

section \<open>Edits and their inverses\<close>

lemma indexOf_Some: "indexOf P xs = Some i \<Longrightarrow> i < length xs \<and> P (xs ! i)"
  by (induction xs arbitrary: i) (auto split: if_splits)

lemma indexOf_find: "indexOf P xs = Some i \<Longrightarrow> find P xs = Some (xs ! i)"
  by (induction xs arbitrary: i) (auto split: if_splits)

lemma find_indexOf: "find P xs = Some d \<Longrightarrow> \<exists>i. indexOf P xs = Some i \<and> xs ! i = d"
  by (induction xs) (auto split: if_splits)

lemma indexOf_None: "(indexOf P xs = None) = (\<forall>x \<in> set xs. \<not> P x)"
  by (induction xs) auto

lemma removeAt_remove1:
  "find P xs = Some d \<Longrightarrow> indexOf P xs = Some i \<Longrightarrow> removeAt i xs = remove1 d xs"
proof (induction xs arbitrary: i)
  case Nil
  then show ?case by simp
next
  case (Cons x xs)
  show ?case
  proof (cases "P x")
    case True
    with Cons.prems show ?thesis by (simp add: removeAt_def)
  next
    case False
    with Cons.prems obtain j where j: "indexOf P xs = Some j" "i = Suc j"
      by auto
    from Cons.prems False have f: "find P xs = Some d" by simp
    then have "P d" by (auto simp add: find_Some_iff)
    with False have "x \<noteq> d" by auto
    with Cons.IH [OF f j(1)] j(2) show ?thesis by (simp add: removeAt_def)
  qed
qed

lemma find_update:
  "indexOf P xs = Some i \<Longrightarrow> P y \<Longrightarrow> find P (xs[i := y]) = Some y"
  by (induction xs arbitrary: i) (auto split: if_splits)

lemma removeAt_length_append: "n = length xs \<Longrightarrow> removeAt n (xs @ y # ys) = xs @ ys"
  by (simp add: removeAt_def)

lemma insertAt_removeAt: "i < length xs \<Longrightarrow> insertAt i (xs ! i) (removeAt i xs) = xs"
  by (simp add: insertAt_def removeAt_def min_def id_take_nth_drop [symmetric])

lemma setField_restore: "setField f (fieldValue f d) (setField f v d) = d"
  by (cases v) (simp_all add: setField_def fieldValue_def)

lemma key_setField: "key (setField f v d) = key d"
  by (cases v) (simp_all add: setField_def)

lemma undoEdit_redoEdit: "validEdit e g \<Longrightarrow> undoEdit e (redoEdit e g) = g"
  by (cases e; cases g) (auto simp add: insertAt_removeAt setField_restore)

lemma revertEdits_applyEdits: "validEdits es g \<Longrightarrow> revertEdits es (applyEdits es g) = g"
  by (induction es arbitrary: g) (auto simp add: undoEdit_redoEdit)

lemma applyEdits_append: "applyEdits (es @ fs) g = applyEdits fs (applyEdits es g)"
  by (induction es arbitrary: g) auto

lemma validEdits_append:
  "validEdits (es @ fs) g = (validEdits es g \<and> validEdits fs (applyEdits es g))"
  by (induction es arbitrary: g) auto

lemma cascadeFromLast_apply:
  "applyEdits (cascadeFromLast k r) (ns, rev r @ ys)
     = (ns, filter (\<lambda>l. \<not> references k l) (rev r) @ ys)"
  by (induction r arbitrary: ys) (auto simp add: removeAt_length_append)

lemma cascadeFromLast_valid: "validEdits (cascadeFromLast k r) (ns, rev r @ ys)"
  by (induction r arbitrary: ys) (auto simp add: removeAt_length_append nth_append)

lemma cascadeEdits_apply:
  "applyEdits (cascadeEdits k ls) (ns, ls) = (ns, filter (\<lambda>l. \<not> references k l) ls)"
  using cascadeFromLast_apply [of k "rev ls" ns "[]"] by (simp add: cascadeEdits_def)

lemma cascadeEdits_valid: "validEdits (cascadeEdits k ls) (ns, ls)"
  using cascadeFromLast_valid [of k "rev ls" ns "[]"] by (simp add: cascadeEdits_def)

section \<open>Edits on the diagram's model\<close>

lemma modelGraph_setModelGraph: "modelGraph (setModelGraph g a) = g"
  by (simp add: modelGraph_def modelNodes_def modelLinks_def setModelGraph_def)

lemma modelGraph_syncSelection: "modelGraph (syncSelection a) = modelGraph a"
  by (simp add: modelGraph_def modelNodes_def modelLinks_def syncSelection_def)

lemma modelGraph_performEdits: "modelGraph (performEdits es a) = applyEdits es (modelGraph a)"
  by (simp add: performEdits_def Let_def modelGraph_def modelNodes_def modelLinks_def
      syncSelection_def setModelGraph_def)

lemma selection_performEdits:
  "selection (diagram (performEdits es a))
     = filter (partExists (applyEdits es (modelGraph a))) (selection (diagram a))"
  by (simp add: performEdits_def Let_def syncSelection_def modelGraph_setModelGraph)
    (simp add: setModelGraph_def)

lemma undoManager_performEdits:
  "undoManager (diagram (performEdits es a)) = record_edits es (undoManager (diagram a))"
  by (simp add: performEdits_def Let_def syncSelection_def setModelGraph_def)

lemma frame_performEdits:
  "model (diagram (performEdits es a)) = model (diagram a) \<and>
   nodeDataArray (performEdits es a) = nodeDataArray a \<and>
   linkDataArray (performEdits es a) = linkDataArray a"
  by (simp add: performEdits_def Let_def syncSelection_def setModelGraph_def)

lemma modelNodes_fst: "modelNodes a = fst (modelGraph a)"
  by (simp add: modelGraph_def)

lemma modelLinks_snd: "modelLinks a = snd (modelGraph a)"
  by (simp add: modelGraph_def)

lemma removeNodeData_apply:
  assumes "indexOf (\<lambda>d. key d = k) ns = Some i"
  shows "\<exists>es. removeNodeData k (ns, ls) = Inr es \<and>
     applyEdits es (ns, ls) = (removeAt i ns, filter (\<lambda>l. \<not> references k l) ls)"
  using assms by (simp add: removeNodeData_def applyEdits_append cascadeEdits_apply)

lemma first_filter: "first xs = Some x \<Longrightarrow> P x \<Longrightarrow> first (filter P xs) = Some x"
  by (cases xs) auto

lemma toggleStatus_step:
  assumes sel: "first (selection (diagram a)) = Some (NodePart k)"
    and dat: "partData a k = Some d"
  shows "\<exists>a'. toggleStatus a = Inr a' \<and>
     partData a' k = Some (d\<lparr>status :=
        if status d = JStr ''active'' then JStr ''inactive'' else JStr ''active''\<rparr>) \<and>
     first (selection (diagram a')) = Some (NodePart k) \<and>
     modelLinks a' = modelLinks a \<and>
     undoManager (diagram a') = record_edits
        [SetPropertyEdit (the (indexOf (\<lambda>d. key d = k) (modelNodes a))) ''status'' (status d)
           (if status d = JStr ''active'' then JStr ''inactive'' else JStr ''active'')]
        (undoManager (diagram a))"
proof -
  let ?v = "if status d = JStr ''active'' then JStr ''inactive'' else JStr ''active''"
  obtain ns ls where g: "modelGraph a = (ns, ls)" by (cases "modelGraph a")
  then have ns: "modelNodes a = ns" and ls: "modelLinks a = ls"
    by (simp_all add: modelGraph_def)
  from dat ns have f: "find (\<lambda>d. key d = k) ns = Some d" by (simp add: partData_def)
  then obtain i where i: "indexOf (\<lambda>d. key d = k) ns = Some i" "ns ! i = d"
    using find_indexOf by fastforce
  from indexOf_Some [OF i(1)] i(2) have il: "i < length ns" and kd: "key d = k" by auto
  let ?es = "[SetPropertyEdit i ''status'' (status d) ?v]"
  let ?a' = "performEdits ?es a"
  have t: "toggleStatus a = Inr ?a'"
    using sel dat i g by (simp add: toggleStatus_def modelCall_def setDataProperty_def fieldValue_def)
  have g': "modelGraph ?a' = (ns[i := d\<lparr>status := ?v\<rparr>], ls)"
    using il i(2) by (simp add: modelGraph_performEdits g setField_def)
  have p: "partData ?a' k = Some (d\<lparr>status := ?v\<rparr>)"
    unfolding partData_def modelNodes_fst g' using find_update [OF i(1), of "d\<lparr>status := ?v\<rparr>"] kd
    by simp
  have ex: "partExists (ns[i := d\<lparr>status := ?v\<rparr>], ls) (NodePart k)"
    using il kd by (auto simp add: set_conv_nth nth_list_update intro!: exI [of _ i])
  have s: "first (selection (diagram ?a')) = Some (NodePart k)"
    unfolding selection_performEdits using g' sel ex
    by (simp add: modelGraph_performEdits [symmetric] first_filter)
  have l: "modelLinks ?a' = modelLinks a"
    unfolding modelLinks_snd g' g by simp
  have u: "undoManager (diagram ?a') = record_edits ?es (undoManager (diagram a))"
    by (rule undoManager_performEdits)
  from t p s l u i(1) ns show ?thesis by simp
qed

lemma modelGraph_clickPart: "modelGraph (clickPart p a) = modelGraph a"
  by (simp add: clickPart_def select_def modelGraph_def modelNodes_def modelLinks_def)

lemma selection_clickPart:
  "partExists (modelGraph a) p \<Longrightarrow> selection (diagram (clickPart p a)) = [p]"
  by (simp add: clickPart_def select_def)

lemma partData_clickPart: "partData (clickPart p a) k = partData a k"
  using modelGraph_clickPart [of p a] by (simp add: partData_def modelGraph_def)

section \<open>Removing the selected node\<close>

text \<open>
  Claim C2. For a selected node, \<^verbatim>\<open>removeSelectedNode\<close> removes the node's record from the
  model and removes exactly the link records whose \<^verbatim>\<open>from\<close> or \<^verbatim>\<open>to\<close> is the node's key:
  the links left are the others, in their order. On the sample data, removing node 1
  leaves the nodes 2 and 3 and no link.
\<close>

theorem removeSelectedNode_cascade:
  assumes sel: "first (selection (diagram a)) = Some (NodePart k)"
    and dat: "partData a k = Some d"
  shows "\<exists>a'. removeSelectedNode a = Inr a' \<and>
     modelNodes a' = remove1 d (modelNodes a) \<and>
     modelLinks a' = filter (\<lambda>l. link_from l \<noteq> k \<and> link_to l \<noteq> k) (modelLinks a)"
proof -
  obtain ns ls where g: "modelGraph a = (ns, ls)" by (cases "modelGraph a")
  then have ns: "modelNodes a = ns" and ls: "modelLinks a = ls"
    by (simp_all add: modelGraph_def)
  from dat ns have f: "find (\<lambda>d. key d = k) ns = Some d" by (simp add: partData_def)
  then obtain i where i: "indexOf (\<lambda>d. key d = k) ns = Some i" "ns ! i = d"
    using find_indexOf by fastforce
  from removeNodeData_apply [OF i(1), of ls] obtain es where
    es: "removeNodeData k (ns, ls) = Inr es"
      "applyEdits es (ns, ls) = (removeAt i ns, filter (\<lambda>l. \<not> references k l) ls)"
    by blast
  have r: "removeSelectedNode a = Inr (performEdits es a)"
    using sel es(1) g by (simp add: removeSelectedNode_def modelCall_def)
  have g': "modelGraph (performEdits es a) = (remove1 d ns, filter (\<lambda>l. \<not> references k l) ls)"
    using es(2) removeAt_remove1 [OF f i(1)] by (simp add: modelGraph_performEdits g)
  from r g' ns ls show ?thesis
    by (simp add: modelNodes_fst modelLinks_snd references_def)
qed

theorem removeSelectedNode_cascade_witness:
  "first (selection (diagram (clickPart (NodePart (Num 1)) ngAfterViewInit)))
     = Some (NodePart (Num 1)) \<and>
   partData (clickPart (NodePart (Num 1)) ngAfterViewInit) (Num 1)
     = Some \<lparr>key = Num 1, name = ''Alice'', status = JStr ''active'', role = JStr ''manager''\<rparr> \<and>
   (\<exists>a'. removeSelectedNode (clickPart (NodePart (Num 1)) ngAfterViewInit) = Inr a' \<and>
      map key (modelNodes a') = [Num 2, Num 3] \<and> modelLinks a' = [])"
proof -
  let ?a = "clickPart (NodePart (Num 1)) ngAfterViewInit"
  have g: "modelGraph ?a = (sampleNodes, sampleLinks)"
    by (simp add: modelGraph_clickPart modelGraph_ngAfterViewInit)
  have s: "first (selection (diagram ?a)) = Some (NodePart (Num 1))"
    by (simp add: selection_clickPart modelGraph_ngAfterViewInit sampleNodes_def)
  have d: "partData ?a (Num 1)
     = Some \<lparr>key = Num 1, name = ''Alice'', status = JStr ''active'', role = JStr ''manager''\<rparr>"
    using g by (simp add: partData_def modelNodes_fst sampleNodes_def)
  from removeSelectedNode_cascade [OF s d] obtain a' where
    a': "removeSelectedNode ?a = Inr a'"
      "modelNodes a' = remove1 \<lparr>key = Num 1, name = ''Alice'', status = JStr ''active'',
          role = JStr ''manager''\<rparr> (modelNodes ?a)"
      "modelLinks a' = filter (\<lambda>l. link_from l \<noteq> Num 1 \<and> link_to l \<noteq> Num 1) (modelLinks ?a)"
    by blast
  from a'(2) g have "map key (modelNodes a') = [Num 2, Num 3]"
    by (simp add: modelNodes_fst sampleNodes_def)
  moreover from a'(3) g have "modelLinks a' = []"
    by (simp add: modelLinks_snd sampleLinks_def)
  ultimately show ?thesis using s d a'(1) by simp
qed

section \<open>Toggling the status\<close>

text \<open>
  Claim C10. For a selected node whose status is anything other than \<^verbatim>\<open>'active'\<close>
  (\<^verbatim>\<open>'inactive'\<close> and \<^verbatim>\<open>undefined\<close> among them), \<^verbatim>\<open>toggleStatus\<close> sets the status to
  \<^verbatim>\<open>'active'\<close>, and a second \<^verbatim>\<open>toggleStatus\<close> sets it to \<^verbatim>\<open>'inactive'\<close>: a status that
  was \<^verbatim>\<open>undefined\<close> does not come back. Two toggles give the record back only when the
  status was \<^verbatim>\<open>'active'\<close> or \<^verbatim>\<open>'inactive'\<close>.
\<close>

theorem toggleStatus_twice:
  assumes sel: "first (selection (diagram a)) = Some (NodePart k)"
    and dat: "partData a k = Some d"
  shows "\<exists>a' a''. toggleStatus a = Inr a' \<and> toggleStatus a' = Inr a'' \<and>
     (status d \<noteq> JStr ''active'' \<longrightarrow>
        partData a' k = Some (d\<lparr>status := JStr ''active''\<rparr>) \<and>
        partData a'' k = Some (d\<lparr>status := JStr ''inactive''\<rparr>)) \<and>
     (status d = JStr ''active'' \<or> status d = JStr ''inactive'' \<longrightarrow> partData a'' k = Some d)"
proof -
  from toggleStatus_step [OF sel dat] obtain a' where
    a': "toggleStatus a = Inr a'"
      "partData a' k = Some (d\<lparr>status :=
          if status d = JStr ''active'' then JStr ''inactive'' else JStr ''active''\<rparr>)"
      "first (selection (diagram a')) = Some (NodePart k)"
    by blast
  from toggleStatus_step [OF a'(3) a'(2)] obtain a'' where
    a'': "toggleStatus a' = Inr a''"
      "partData a'' k = Some (d\<lparr>status :=
          if status d = JStr ''active'' then JStr ''active'' else JStr ''inactive''\<rparr>)"
    by auto
  from a' a'' show ?thesis by auto
qed


lemma modelGraph_addNodeData_ngAfterViewInit:
  "modelGraph (applyOps
      [AddNodeData \<lparr>key = Num 9, name = ''Eve'', status = JUndefined, role = JUndefined\<rparr>]
      ngAfterViewInit)
   = (sampleNodes @ [\<lparr>key = Num 9, name = ''Eve'', status = JUndefined, role = JUndefined\<rparr>],
      sampleLinks)"
  by (simp add: orUnchanged_def modelCall_def addNodeData_def modelGraph_ngAfterViewInit
      modelGraph_performEdits sampleNodes_def)

theorem toggleStatus_twice_witness:
  "first (selection (diagram (clickPart (NodePart (Num 9)) (applyOps
      [AddNodeData \<lparr>key = Num 9, name = ''Eve'', status = JUndefined, role = JUndefined\<rparr>]
      ngAfterViewInit)))) = Some (NodePart (Num 9)) \<and>
   partData (clickPart (NodePart (Num 9)) (applyOps
      [AddNodeData \<lparr>key = Num 9, name = ''Eve'', status = JUndefined, role = JUndefined\<rparr>]
      ngAfterViewInit)) (Num 9)
     = Some \<lparr>key = Num 9, name = ''Eve'', status = JUndefined, role = JUndefined\<rparr> \<and>
   (\<exists>a' a''.
      toggleStatus (clickPart (NodePart (Num 9)) (applyOps
        [AddNodeData \<lparr>key = Num 9, name = ''Eve'', status = JUndefined, role = JUndefined\<rparr>]
        ngAfterViewInit)) = Inr a' \<and>
      toggleStatus a' = Inr a'' \<and>
      partData a' (Num 9)
        = Some \<lparr>key = Num 9, name = ''Eve'', status = JStr ''active'', role = JUndefined\<rparr> \<and>
      partData a'' (Num 9)
        = Some \<lparr>key = Num 9, name = ''Eve'', status = JStr ''inactive'', role = JUndefined\<rparr>) \<and>
   first (selection (diagram (clickPart (NodePart (Num 1)) ngAfterViewInit)))
     = Some (NodePart (Num 1)) \<and>
   partData (clickPart (NodePart (Num 1)) ngAfterViewInit) (Num 1)
     = Some \<lparr>key = Num 1, name = ''Alice'', status = JStr ''active'', role = JStr ''manager''\<rparr> \<and>
   (\<exists>a' a''.
      toggleStatus (clickPart (NodePart (Num 1)) ngAfterViewInit) = Inr a' \<and>
      toggleStatus a' = Inr a'' \<and>
      partData a'' (Num 1)
        = Some \<lparr>key = Num 1, name = ''Alice'', status = JStr ''active'',
             role = JStr ''manager''\<rparr>)"
proof -
  let ?eve = "\<lparr>key = Num 9, name = ''Eve'', status = JUndefined, role = JUndefined\<rparr>"
  let ?alice = "\<lparr>key = Num 1, name = ''Alice'', status = JStr ''active'',
      role = JStr ''manager''\<rparr>"
  let ?b = "applyOps [AddNodeData ?eve] ngAfterViewInit"
  let ?e = "clickPart (NodePart (Num 9)) ?b"
  let ?a = "clickPart (NodePart (Num 1)) ngAfterViewInit"
  have se: "first (selection (diagram ?e)) = Some (NodePart (Num 9))"
    by (simp add: selection_clickPart modelGraph_addNodeData_ngAfterViewInit sampleNodes_def
        del: applyOps.simps)
  have de: "partData ?e (Num 9) = Some ?eve"
    by (simp add: partData_clickPart partData_def modelNodes_fst sampleNodes_def
        modelGraph_clickPart modelGraph_addNodeData_ngAfterViewInit del: applyOps.simps)
  have sa: "first (selection (diagram ?a)) = Some (NodePart (Num 1))"
    by (simp add: selection_clickPart modelGraph_ngAfterViewInit sampleNodes_def)
  have da: "partData ?a (Num 1) = Some ?alice"
    by (simp add: partData_def modelNodes_fst modelGraph_clickPart modelGraph_ngAfterViewInit
        sampleNodes_def)
  from toggleStatus_twice [OF se de]
  have 1: "\<exists>a' a''. toggleStatus ?e = Inr a' \<and> toggleStatus a' = Inr a'' \<and>
      partData a' (Num 9)
        = Some \<lparr>key = Num 9, name = ''Eve'', status = JStr ''active'', role = JUndefined\<rparr> \<and>
      partData a'' (Num 9)
        = Some \<lparr>key = Num 9, name = ''Eve'', status = JStr ''inactive'', role = JUndefined\<rparr>"
    by simp
  from toggleStatus_twice [OF sa da]
  have 2: "\<exists>a' a''. toggleStatus ?a = Inr a' \<and> toggleStatus a' = Inr a'' \<and>
      partData a'' (Num 1) = Some ?alice"
    by simp
  from se de 1 sa da 2 show ?thesis by blast
qed

section \<open>The model and the component share their arrays\<close>

lemma aliased_performEdits: "aliased (performEdits es a) = aliased a"
  by (simp add: aliased_def frame_performEdits)

lemma aliased_modelCall: "aliased a \<Longrightarrow> aliased (orUnchanged a (modelCall f a))"
  by (simp add: orUnchanged_def modelCall_def aliased_performEdits split: sum.splits)

lemma aliased_loadExample: "aliased a \<Longrightarrow> aliased (loadExample x a)"
  by (simp add: loadExample_def updateModel_def setNodeTemplate_def aliased_def)

lemma aliased_step: "aliased a \<Longrightarrow> aliased (step x a)"
proof (cases x)
  case AddNode
  assume "aliased a"
  with AddNode show ?thesis by (simp add: addNode_def aliased_modelCall)
next
  case RemoveSelectedNode
  assume "aliased a"
  with RemoveSelectedNode show ?thesis
    using aliased_modelCall [of a]
    by (auto simp add: removeSelectedNode_def orUnchanged_def split: option.splits part.splits)
next
  case ToggleStatus
  assume "aliased a"
  with ToggleStatus show ?thesis
    using aliased_modelCall [of a]
    by (auto simp add: toggleStatus_def orUnchanged_def split: option.splits part.splits)
next
  case (SelectExample y)
  assume a: "aliased a"
  then have "aliased (a\<lparr>currentExample := y\<rparr>)" by (simp add: aliased_def)
  with SelectExample show ?thesis by (simp add: selectExample_def aliased_loadExample)
next
  case (ClickPart p)
  assume "aliased a"
  with ClickPart show ?thesis by (simp add: clickPart_def select_def aliased_def)
qed

lemma aliased_run: "aliased a \<Longrightarrow> aliased (run xs a)"
  by (induction xs arbitrary: a) (auto simp add: aliased_step)

lemma aliased_ngAfterViewInit: "aliased ngAfterViewInit"
  by (simp add: ngAfterViewInit_def loadExample_def updateModel_def setNodeTemplate_def
      aliased_def)

lemma modelGraph_loadExample: "aliased a \<Longrightarrow> modelGraph (loadExample x a) = modelGraph a"
  by (simp add: loadExample_def updateModel_def setNodeTemplate_def aliased_def
      modelGraph_def modelNodes_def modelLinks_def)

lemma modelGraph_selectExample: "aliased a \<Longrightarrow> modelGraph (selectExample x a) = modelGraph a"
proof -
  assume a: "aliased a"
  then have "aliased (a\<lparr>currentExample := x\<rparr>)" by (simp add: aliased_def)
  from modelGraph_loadExample [OF this, of x] show ?thesis
    by (simp add: selectExample_def modelGraph_def modelNodes_def modelLinks_def)
qed

lemma nodeTemplate_selectExample:
  "nodeTemplate (diagram (selectExample x a)) =
     (if x = ''mental-model'' then createBasicNodeTemplate
      else if x = ''graphobject-basics'' then graphobjectBasicsTemplate
      else if x = ''bindings'' then bindingsTemplate
      else if x = ''panels-auto'' then panelsAutoTemplate
      else if x = ''panels-spot'' then panelsSpotTemplate
      else if x = ''panels-vertical'' then panelsVerticalTemplate
      else if x = ''composition'' then compositionTemplate
      else if x = ''events'' then eventsTemplate
      else nodeTemplate (diagram a))"
  by (simp add: selectExample_def loadExample_def updateModel_def setNodeTemplate_def)

lemma model_selectExample:
  "x \<in> set (map ex_id examples) \<Longrightarrow>
   model (diagram (selectExample x a))
     = \<lparr>model_nodeDataArray = nodeDataArray a, model_linkDataArray = linkDataArray a\<rparr> \<and>
   selection (diagram (selectExample x a)) = [] \<and>
   nodeArrays (selectExample x a) = nodeArrays a \<and>
   linkArrays (selectExample x a) = linkArrays a"
  by (auto simp add: examples_def selectExample_def loadExample_def updateModel_def setNodeTemplate_def)

text \<open>
  Claim C6. For every known example id, \<^verbatim>\<open>selectExample\<close> replaces the node template by the
  template of that example and builds the diagram's model anew over the component's
  arrays. At any moment after start-up (whatever was added with \<^verbatim>\<open>addNode\<close> or removed with
  \<^verbatim>\<open>removeSelectedNode\<close> before), the node records and the link records of the model are
  the same before and after.
\<close>

theorem selectExample_rebuilds:
  assumes "x \<in> set (map ex_id examples)"
  shows "modelNodes (selectExample x (run acts ngAfterViewInit))
           = modelNodes (run acts ngAfterViewInit) \<and>
         modelLinks (selectExample x (run acts ngAfterViewInit))
           = modelLinks (run acts ngAfterViewInit) \<and>
         model (diagram (selectExample x (run acts ngAfterViewInit)))
           = \<lparr>model_nodeDataArray = nodeDataArray (run acts ngAfterViewInit),
              model_linkDataArray = linkDataArray (run acts ngAfterViewInit)\<rparr> \<and>
         nodeTemplate (diagram (selectExample x (run acts ngAfterViewInit)))
           = (if x = ''mental-model'' then createBasicNodeTemplate
              else if x = ''graphobject-basics'' then graphobjectBasicsTemplate
              else if x = ''bindings'' then bindingsTemplate
              else if x = ''panels-auto'' then panelsAutoTemplate
              else if x = ''panels-spot'' then panelsSpotTemplate
              else if x = ''panels-vertical'' then panelsVerticalTemplate
              else if x = ''composition'' then compositionTemplate
              else eventsTemplate)"
proof -
  let ?a = "run acts ngAfterViewInit"
  have al: "aliased ?a" by (simp add: aliased_run aliased_ngAfterViewInit)
  from modelGraph_selectExample [OF al, of x]
  have g: "modelNodes (selectExample x ?a) = modelNodes ?a \<and>
      modelLinks (selectExample x ?a) = modelLinks ?a"
    by (simp add: modelGraph_def)
  from assms have t: "nodeTemplate (diagram (selectExample x ?a))
           = (if x = ''mental-model'' then createBasicNodeTemplate
              else if x = ''graphobject-basics'' then graphobjectBasicsTemplate
              else if x = ''bindings'' then bindingsTemplate
              else if x = ''panels-auto'' then panelsAutoTemplate
              else if x = ''panels-spot'' then panelsSpotTemplate
              else if x = ''panels-vertical'' then panelsVerticalTemplate
              else if x = ''composition'' then compositionTemplate
              else eventsTemplate)"
    unfolding nodeTemplate_selectExample by (auto simp add: examples_def)
  from g t model_selectExample [OF assms, of ?a] show ?thesis by simp
qed

theorem selectExample_rebuilds_witness:
  "''composition'' \<in> set (map ex_id examples) \<and>
   map key (modelNodes
     (run [AddNode, ClickPart (NodePart (Num 2)), RemoveSelectedNode] ngAfterViewInit))
     = [Num 1, Num 3, Num 4] \<and>
   modelNodes (selectExample ''composition''
     (run [AddNode, ClickPart (NodePart (Num 2)), RemoveSelectedNode] ngAfterViewInit))
     = modelNodes (run [AddNode, ClickPart (NodePart (Num 2)), RemoveSelectedNode] ngAfterViewInit) \<and>
   modelLinks (selectExample ''composition''
     (run [AddNode, ClickPart (NodePart (Num 2)), RemoveSelectedNode] ngAfterViewInit))
     = modelLinks (run [AddNode, ClickPart (NodePart (Num 2)), RemoveSelectedNode] ngAfterViewInit) \<and>
   nodeTemplate (diagram (selectExample ''composition''
     (run [AddNode, ClickPart (NodePart (Num 2)), RemoveSelectedNode] ngAfterViewInit)))
     = compositionTemplate"
proof -
  have m: "''composition'' \<in> set (map ex_id examples)"
    by (simp add: examples_def)
  have k: "map key (modelNodes
     (run [AddNode, ClickPart (NodePart (Num 2)), RemoveSelectedNode] ngAfterViewInit))
     = [Num 1, Num 3, Num 4]"
    by code_simp
  from selectExample_rebuilds [OF m, of "[AddNode, ClickPart (NodePart (Num 2)), RemoveSelectedNode]"]
    m k show ?thesis by (simp del: run.simps)
qed

section \<open>Keys of the nodes\<close>

lemma distinct_removeAt: "distinct xs \<Longrightarrow> distinct (removeAt i xs)"
  by (auto simp add: removeAt_def set_take_disj_set_drop_if_distinct)

lemma map_removeAt: "map f (removeAt i xs) = removeAt i (map f xs)"
  by (simp add: removeAt_def take_map drop_map)

lemma map_key_update: "i < length ns \<Longrightarrow> map key (ns[i := setField f v (ns ! i)]) = map key ns"
  by (simp add: map_update key_setField list_update_same_conv)

lemma modelOpEdits_valid:
  assumes "modelOpEdits x g = Inr es"
  shows "validEdits es g"
proof (cases g)
  case (Pair ns ls)
  show ?thesis
  proof (cases x)
    case (AddNodeData d)
    with assms Pair show ?thesis by (auto simp add: addNodeData_def split: if_splits)
  next
    case (RemoveNodeData k)
    with assms Pair show ?thesis
      by (auto simp add: removeNodeData_def validEdits_append cascadeEdits_valid
          cascadeEdits_apply dest: indexOf_Some split: option.splits)
  next
    case (AddLinkData l)
    with assms Pair show ?thesis by (auto simp add: addLinkData_def)
  next
    case (RemoveLinkData l)
    with assms Pair show ?thesis
      by (auto simp add: removeLinkData_def dest: indexOf_Some split: option.splits)
  next
    case (SetDataProperty k f v)
    with assms Pair show ?thesis
      by (auto simp add: setDataProperty_def dest: indexOf_Some split: option.splits)
  qed
qed

lemma modelOpEdits_distinct:
  assumes "modelOpEdits x g = Inr es" and "distinct (map key (fst g))"
  shows "distinct (map key (fst (applyEdits es g)))"
proof (cases g)
  case (Pair ns ls)
  show ?thesis
  proof (cases x)
    case (AddNodeData d)
    with assms Pair show ?thesis by (auto simp add: addNodeData_def split: if_splits)
  next
    case (RemoveNodeData k)
    with assms Pair show ?thesis
      by (auto simp add: removeNodeData_def applyEdits_append cascadeEdits_apply
          map_removeAt distinct_removeAt split: option.splits)
  next
    case (AddLinkData l)
    with assms Pair show ?thesis by (auto simp add: addLinkData_def)
  next
    case (RemoveLinkData l)
    with assms Pair show ?thesis
      by (auto simp add: removeLinkData_def split: option.splits)
  next
    case (SetDataProperty k f v)
    with assms Pair show ?thesis
      by (auto simp add: setDataProperty_def map_key_update dest: indexOf_Some
          split: option.splits)
  qed
qed

lemma distinct_modelCall:
  assumes "distinct (map key (modelNodes a))"
  shows "distinct (map key (modelNodes (orUnchanged a (modelCall (modelOpEdits x) a))))"
proof (cases "modelOpEdits x (modelGraph a)")
  case (Inl e)
  with assms show ?thesis by (simp add: orUnchanged_def modelCall_def)
next
  case (Inr es)
  from modelOpEdits_distinct [OF Inr] assms
  have "distinct (map key (fst (applyEdits es (modelGraph a))))"
    by (simp add: modelNodes_fst)
  with Inr show ?thesis
    by (simp add: orUnchanged_def modelCall_def modelNodes_fst modelGraph_performEdits)
qed

lemma addNode_modelOp:
  "addNode a = modelCall (modelOpEdits (AddNodeData
      \<lparr>key = newKey a, name = ''Person '' @ toString (newKey a), status = JStr ''active'',
        role = JStr ''employee''\<rparr>)) a"
  by (simp add: addNode_def modelCall_def)

lemma distinct_step:
  assumes "aliased a" and "distinct (map key (modelNodes a))"
  shows "distinct (map key (modelNodes (step x a)))"
proof (cases x)
  case AddNode
  with assms(2) show ?thesis
    using distinct_modelCall [of a] by (simp add: addNode_modelOp)
next
  case RemoveSelectedNode
  with assms(2) show ?thesis
    using distinct_modelCall [of a "RemoveNodeData k" for k]
    by (auto simp add: removeSelectedNode_def modelCall_def orUnchanged_def
        split: option.splits part.splits)
next
  case ToggleStatus
  with assms(2) show ?thesis
    using distinct_modelCall [of a "SetDataProperty k ''status'' v" for k v]
    by (auto simp add: toggleStatus_def modelCall_def orUnchanged_def
        split: option.splits part.splits)
next
  case (SelectExample y)
  with assms show ?thesis
    using modelGraph_selectExample [of a y] by (simp add: modelNodes_fst)
next
  case (ClickPart p)
  with assms(2) show ?thesis by (simp add: modelNodes_fst modelGraph_clickPart)
qed

lemma distinct_run:
  "aliased a \<Longrightarrow> distinct (map key (modelNodes a)) \<Longrightarrow>
   distinct (map key (modelNodes (run xs a)))"
  by (induction xs arbitrary: a) (auto simp add: aliased_step distinct_step)

text \<open>
  No two nodes of the model share a key, whatever the user does after start-up: the model
  refuses a key that exists.
\<close>

lemma keys_distinct_after_startup:
  "distinct (map key (modelNodes (run xs ngAfterViewInit)))"
proof -
  have "distinct (map key (modelNodes ngAfterViewInit))"
    using modelGraph_ngAfterViewInit by (simp add: modelNodes_fst sampleNodes_def)
  with aliased_ngAfterViewInit show ?thesis by (rule distinct_run)
qed

lemma Math_max_upper: "Num n \<in> set xs \<Longrightarrow> \<exists>m. Math_max xs = Num m \<and> n \<le> m"
proof (induction xs)
  case Nil
  then show ?case by simp
next
  case (Cons x xs)
  show ?case
  proof (cases "Num n \<in> set xs")
    case True
    from Cons.IH [OF this] obtain m where "Math_max xs = Num m" "n \<le> m" by blast
    then show ?thesis by (cases x) (auto simp add: Math_max_def)
  next
    case False
    with Cons.prems have "x = Num n" by simp
    then show ?thesis by (cases "foldr jsmax xs NegInfinity") (auto simp add: Math_max_def)
  qed
qed

text \<open>
  The key that \<^verbatim>\<open>addNode\<close> computes is new as long as some node has a finite key.
\<close>

lemma newKey_fresh:
  assumes "aliased a" and "Num n \<in> set (map key (modelNodes a))"
  shows "newKey a \<notin> set (map key (modelNodes a))"
proof
  assume in_keys: "newKey a \<in> set (map key (modelNodes a))"
  from assms(1) have same: "nodeArrays a (nodeDataArray a) = modelNodes a"
    by (simp add: aliased_def modelNodes_def)
  from Math_max_upper [OF assms(2)] obtain m where
    m: "Math_max (map key (modelNodes a)) = Num m" by blast
  then have nk: "newKey a = Num (m + 1)" by (simp add: newKey_def same)
  with in_keys have "Num (m + 1) \<in> set (map key (modelNodes a))" by simp
  from Math_max_upper [OF this] m show False by simp
qed

lemma buttons_step:
  assumes "x = AddNode \<or> x = RemoveSelectedNode"
    and "selection (diagram a) = []"
    and "Num n \<in> set (map key (modelNodes a))"
  shows "selection (diagram (step x a)) = [] \<and> Num n \<in> set (map key (modelNodes (step x a)))"
proof (cases "x = AddNode")
  case True
  show ?thesis
  proof (cases "addNode a")
    case (Inl e)
    with True assms show ?thesis by (simp add: orUnchanged_def)
  next
    case (Inr a')
    then obtain d where a': "a' = performEdits [AddNodeEdit d] a"
      by (auto simp add: addNode_def modelCall_def addNodeData_def split: if_splits)
    have "modelGraph a' = applyEdits [AddNodeEdit d] (modelGraph a)"
      by (simp add: a' modelGraph_performEdits)
    then have n: "modelNodes a' = modelNodes a @ [d]"
      by (simp add: modelGraph_def)
    have "selection (diagram a') = []"
      using assms(2) by (simp add: a' selection_performEdits)
    with n have "selection (diagram a') = [] \<and> modelNodes a' = modelNodes a @ [d]"
      by simp
    with True Inr assms(3) show ?thesis by (simp add: orUnchanged_def)
  qed
next
  case False
  with assms(1) have "x = RemoveSelectedNode" by simp
  with assms show ?thesis by (simp add: removeSelectedNode_def orUnchanged_def)
qed

lemma buttons_run:
  "buttonsOnly xs \<Longrightarrow> selection (diagram a) = [] \<Longrightarrow>
   Num n \<in> set (map key (modelNodes a)) \<Longrightarrow>
   selection (diagram (run xs a)) = [] \<and> Num n \<in> set (map key (modelNodes (run xs a)))"
proof (induction xs arbitrary: a)
  case Nil
  then show ?case by simp
next
  case (Cons x xs)
  from Cons.prems(1) have x: "x = AddNode \<or> x = RemoveSelectedNode" and xs: "buttonsOnly xs"
    by (cases x; simp)+
  from buttons_step [OF x Cons.prems(2,3)] Cons.IH [OF xs] show ?case by simp
qed

text \<open>
  With no click in between nothing is ever selected, \<^verbatim>\<open>removeSelectedNode\<close> removes
  nothing, and every key that \<^verbatim>\<open>addNode\<close> computes is new.
\<close>

lemma newKey_fresh_without_clicks:
  assumes "buttonsOnly xs"
  shows "newKey (run xs ngAfterViewInit) \<notin> set (map key (modelNodes (run xs ngAfterViewInit)))"
proof -
  have "Num 1 \<in> set (map key (modelNodes ngAfterViewInit))"
    using modelGraph_ngAfterViewInit by (simp add: modelNodes_fst sampleNodes_def)
  from buttons_run [OF assms selection_ngAfterViewInit this]
  have "Num 1 \<in> set (map key (modelNodes (run xs ngAfterViewInit)))" by simp
  with aliased_run [OF aliased_ngAfterViewInit, of xs] show ?thesis by (rule newKey_fresh)
qed

lemma addNode_duplicate:
  "newKey a \<in> set (map key (modelNodes a)) \<Longrightarrow> addNode a = Inl DuplicateKey"
  by (simp add: addNode_def modelCall_def addNodeData_def modelGraph_def)

text \<open>
  Claim C1, at the input where the code departs from it. After start-up the user removes
  the three sample nodes (selecting each and pressing remove) and presses add: the array
  is empty, \<^verbatim>\<open>Math.max()\<close> is \<^verbatim>\<open>-Infinity\<close>, and the node added has the key \<^verbatim>\<open>-Infinity\<close>. At
  the next \<^verbatim>\<open>addNode\<close> the key computed, the maximum plus one, is \<^verbatim>\<open>-Infinity\<close> again: the
  key of a node that exists, which the model refuses.
\<close>

theorem addNode_key_collides:
  "map key (modelNodes
     (run [ClickPart (NodePart (Num 1)), RemoveSelectedNode,
           ClickPart (NodePart (Num 2)), RemoveSelectedNode,
           ClickPart (NodePart (Num 3)), RemoveSelectedNode,
           AddNode] ngAfterViewInit)) = [NegInfinity] \<and>
   newKey
     (run [ClickPart (NodePart (Num 1)), RemoveSelectedNode,
           ClickPart (NodePart (Num 2)), RemoveSelectedNode,
           ClickPart (NodePart (Num 3)), RemoveSelectedNode,
           AddNode] ngAfterViewInit) = NegInfinity \<and>
   addNode
     (run [ClickPart (NodePart (Num 1)), RemoveSelectedNode,
           ClickPart (NodePart (Num 2)), RemoveSelectedNode,
           ClickPart (NodePart (Num 3)), RemoveSelectedNode,
           AddNode] ngAfterViewInit) = Inl DuplicateKey"
proof -
  let ?s = "run [ClickPart (NodePart (Num 1)), RemoveSelectedNode,
           ClickPart (NodePart (Num 2)), RemoveSelectedNode,
           ClickPart (NodePart (Num 3)), RemoveSelectedNode,
           AddNode] ngAfterViewInit"
  have k: "map key (modelNodes ?s) = [NegInfinity]" by code_simp
  have n: "newKey ?s = NegInfinity" by code_simp
  from k n have "addNode ?s = Inl DuplicateKey"
    by (intro addNode_duplicate) simp
  with k n show ?thesis by blast
qed

section \<open>Transactions, undo and redo\<close>

lemma startTransaction_idle:
  assumes "recording (undoManager (diagram a)) = None"
  shows "\<exists>b. startTransaction a = Inr b \<and>
     recording (undoManager (diagram b)) = Some [] \<and>
     undoStack (undoManager (diagram b)) = undoStack (undoManager (diagram a)) \<and>
     modelGraph b = modelGraph a \<and>
     selection (diagram b) = selection (diagram a)"
  using assms
  by (simp add: startTransaction_def modelGraph_def modelNodes_def modelLinks_def)

lemma recording_modelCall:
  assumes rec: "recording (undoManager (diagram a)) = Some b"
    and val: "validEdits b g0"
    and app: "applyEdits b g0 = modelGraph a"
  shows "\<exists>b'. recording (undoManager (diagram (orUnchanged a (modelCall (modelOpEdits x) a))))
        = Some b' \<and>
      validEdits b' g0 \<and>
      applyEdits b' g0 = modelGraph (orUnchanged a (modelCall (modelOpEdits x) a))"
proof (cases "modelOpEdits x (modelGraph a)")
  case (Inl e)
  with assms show ?thesis by (simp add: orUnchanged_def modelCall_def)
next
  case (Inr es)
  from modelOpEdits_valid [OF Inr] have v: "validEdits es (modelGraph a)" .
  have r: "recording (undoManager (diagram (performEdits es a))) = Some (b @ es)"
    using rec by (simp add: undoManager_performEdits record_edits_def)
  have v': "validEdits (b @ es) g0"
    using val v app by (simp add: validEdits_append)
  have a': "applyEdits (b @ es) g0 = modelGraph (performEdits es a)"
    using app by (simp add: applyEdits_append modelGraph_performEdits)
  from Inr r v' a' show ?thesis by (simp add: orUnchanged_def modelCall_def)
qed

lemma recording_applyOps:
  assumes "recording (undoManager (diagram a)) = Some b"
    and "validEdits b g0"
    and "applyEdits b g0 = modelGraph a"
  shows "\<exists>b'. recording (undoManager (diagram (applyOps xs a))) = Some b' \<and>
      validEdits b' g0 \<and> applyEdits b' g0 = modelGraph (applyOps xs a)"
  using assms
proof (induction xs arbitrary: a b)
  case Nil
  then show ?case by simp
next
  case (Cons x xs)
  from recording_modelCall [OF Cons.prems, of x] obtain b' where
    "recording (undoManager (diagram (orUnchanged a (modelCall (modelOpEdits x) a)))) = Some b'"
    "validEdits b' g0"
    "applyEdits b' g0 = modelGraph (orUnchanged a (modelCall (modelOpEdits x) a))"
    by blast
  from Cons.IH [OF this] show ?case by simp
qed

lemma commit_undo_redo:
  assumes rec: "recording (undoManager (diagram c)) = Some b"
    and val: "validEdits b g0"
    and app: "applyEdits b g0 = modelGraph c"
  shows "modelGraph (commitTransaction c) = modelGraph c \<and>
     (\<exists>u. undo (commitTransaction c) = Inr u \<and> modelGraph u = g0 \<and>
        (\<exists>r. redo u = Inr r \<and> modelGraph r = modelGraph c))"
proof -
  let ?c = "commitTransaction c"
  have st: "undoStack (undoManager (diagram ?c)) = b # undoStack (undoManager (diagram c))"
    using rec by (simp add: commitTransaction_def)
  have g: "modelGraph ?c = modelGraph c"
    using rec by (simp add: commitTransaction_def modelGraph_def modelNodes_def modelLinks_def)
  let ?u1 = "syncSelection (setModelGraph (revertEdits b (modelGraph ?c)) ?c)"
  let ?u = "?u1\<lparr>diagram := (diagram ?u1)\<lparr>undoManager :=
                    (undoManager (diagram ?u1))
                      \<lparr>undoStack := undoStack (undoManager (diagram c)),
                       redoStack := b # redoStack (undoManager (diagram ?u1))\<rparr>\<rparr>\<rparr>"
  have u: "undo ?c = Inr ?u"
    using st by (simp add: undo_def Let_def)
  have "modelGraph ?u = modelGraph ?u1"
    by (simp add: modelGraph_def modelNodes_def modelLinks_def)
  then have gu: "modelGraph ?u = g0"
    using g val
    by (simp add: modelGraph_syncSelection modelGraph_setModelGraph app [symmetric]
        revertEdits_applyEdits)
  have ru: "redoStack (undoManager (diagram ?u)) = b # redoStack (undoManager (diagram ?u1))"
    by simp
  let ?r1 = "syncSelection (setModelGraph (applyEdits b (modelGraph ?u)) ?u)"
  obtain r where r: "redo ?u = Inr r" "modelGraph r = modelGraph ?r1"
    using ru by (simp add: redo_def Let_def modelGraph_def modelNodes_def modelLinks_def)
  have "modelGraph ?r1 = modelGraph c"
    using gu app by (simp add: modelGraph_syncSelection modelGraph_setModelGraph)
  with r u gu g show ?thesis by simp
qed

text \<open>
  Claim C7. After any committed transaction of model edits (a transaction started while
  the undo manager is Idle, any sequence of calls on the model, then
  \<^verbatim>\<open>commitTransaction\<close>), \<^verbatim>\<open>undo\<close> restores the model to exactly its state before the
  transaction, the same node records and the same link records, and \<^verbatim>\<open>redo\<close> after that
  \<^verbatim>\<open>undo\<close> restores the state after the transaction.
\<close>

theorem undo_redo_transaction:
  assumes "recording (undoManager (diagram a)) = None"
  shows "\<exists>b. startTransaction a = Inr b \<and>
     (\<exists>u. undo (commitTransaction (applyOps xs b)) = Inr u \<and>
        modelGraph u = modelGraph a \<and>
        (\<exists>r. redo u = Inr r \<and>
           modelGraph r = modelGraph (commitTransaction (applyOps xs b))))"
proof -
  from startTransaction_idle [OF assms] obtain b where
    b: "startTransaction a = Inr b" "recording (undoManager (diagram b)) = Some []"
      "modelGraph b = modelGraph a"
    by blast
  have "validEdits [] (modelGraph a)" "applyEdits [] (modelGraph a) = modelGraph b"
    using b(3) by simp_all
  from recording_applyOps [OF b(2) this, of xs] obtain b' where
    b': "recording (undoManager (diagram (applyOps xs b))) = Some b'"
      "validEdits b' (modelGraph a)"
      "applyEdits b' (modelGraph a) = modelGraph (applyOps xs b)"
    by blast
  from commit_undo_redo [OF b'] b(1) show ?thesis by simp
qed

lemma recording_ngAfterViewInit: "undoManager (diagram ngAfterViewInit)
    = \<lparr>recording = None, undoStack = [], redoStack = []\<rparr>"
  by (simp add: ngAfterViewInit_def loadExample_def updateModel_def setNodeTemplate_def
      initDiagram_def)

theorem undo_redo_transaction_witness:
  "recording (undoManager (diagram ngAfterViewInit)) = None \<and>
   (\<exists>b. startTransaction ngAfterViewInit = Inr b \<and>
      map key (modelNodes (commitTransaction (applyOps
        [RemoveNodeData (Num 1),
         SetDataProperty (Num 2) ''status'' (JStr ''inactive'')] b))) = [Num 2, Num 3] \<and>
      modelLinks (commitTransaction (applyOps
        [RemoveNodeData (Num 1),
         SetDataProperty (Num 2) ''status'' (JStr ''inactive'')] b)) = [] \<and>
      (\<exists>u. undo (commitTransaction (applyOps
          [RemoveNodeData (Num 1),
           SetDataProperty (Num 2) ''status'' (JStr ''inactive'')] b)) = Inr u \<and>
         modelGraph u = (sampleNodes, sampleLinks) \<and>
         (\<exists>r. redo u = Inr r \<and>
            modelGraph r = modelGraph (commitTransaction (applyOps
              [RemoveNodeData (Num 1),
               SetDataProperty (Num 2) ''status'' (JStr ''inactive'')] b)))))"
proof -
  let ?xs = "[RemoveNodeData (Num 1), SetDataProperty (Num 2) ''status'' (JStr ''inactive'')]"
  let ?b = "orUnchanged ngAfterViewInit (startTransaction ngAfterViewInit)"
  have i: "recording (undoManager (diagram ngAfterViewInit)) = None"
    by (simp add: recording_ngAfterViewInit)
  from undo_redo_transaction [OF i, of ?xs] obtain b where
    b: "startTransaction ngAfterViewInit = Inr b"
      "\<exists>u. undo (commitTransaction (applyOps ?xs b)) = Inr u \<and>
        modelGraph u = modelGraph ngAfterViewInit \<and>
        (\<exists>r. redo u = Inr r \<and> modelGraph r = modelGraph (commitTransaction (applyOps ?xs b)))"
    by blast
  from b(1) have e: "?b = b" by (simp add: orUnchanged_def)
  have "map key (modelNodes (commitTransaction (applyOps ?xs ?b))) = [Num 2, Num 3]"
    by code_simp
  then have k: "map key (modelNodes (commitTransaction (applyOps ?xs b))) = [Num 2, Num 3]"
    unfolding e .
  have "modelLinks (commitTransaction (applyOps ?xs ?b)) = []"
    by code_simp
  then have l: "modelLinks (commitTransaction (applyOps ?xs b)) = []"
    unfolding e .
  from b(2) have u: "\<exists>u. undo (commitTransaction (applyOps ?xs b)) = Inr u \<and>
        modelGraph u = (sampleNodes, sampleLinks) \<and>
        (\<exists>r. redo u = Inr r \<and> modelGraph r = modelGraph (commitTransaction (applyOps ?xs b)))"
    unfolding modelGraph_ngAfterViewInit .
  have "\<exists>b. startTransaction ngAfterViewInit = Inr b \<and>
      map key (modelNodes (commitTransaction (applyOps ?xs b))) = [Num 2, Num 3] \<and>
      modelLinks (commitTransaction (applyOps ?xs b)) = [] \<and>
      (\<exists>u. undo (commitTransaction (applyOps ?xs b)) = Inr u \<and>
         modelGraph u = (sampleNodes, sampleLinks) \<and>
         (\<exists>r. redo u = Inr r \<and>
            modelGraph r = modelGraph (commitTransaction (applyOps ?xs b))))"
  proof (rule exI [of _ b])
    from b(1) k l u show "startTransaction ngAfterViewInit = Inr b \<and>
      map key (modelNodes (commitTransaction (applyOps ?xs b))) = [Num 2, Num 3] \<and>
      modelLinks (commitTransaction (applyOps ?xs b)) = [] \<and>
      (\<exists>u. undo (commitTransaction (applyOps ?xs b)) = Inr u \<and>
         modelGraph u = (sampleNodes, sampleLinks) \<and>
         (\<exists>r. redo u = Inr r \<and>
            modelGraph r = modelGraph (commitTransaction (applyOps ?xs b))))"
      by (intro conjI) assumption+
  qed
  with i show ?thesis by (rule conjI)
qed

text \<open>A transaction that is rolled back leaves the model as it was before it started.\<close>

lemma rollback_restores:
  assumes "recording (undoManager (diagram a)) = None"
  shows "\<exists>b. startTransaction a = Inr b \<and>
     modelGraph (rollbackTransaction (applyOps xs b)) = modelGraph a"
proof -
  from startTransaction_idle [OF assms] obtain b where
    b: "startTransaction a = Inr b" "recording (undoManager (diagram b)) = Some []"
      "modelGraph b = modelGraph a"
    by blast
  have "validEdits [] (modelGraph a)" "applyEdits [] (modelGraph a) = modelGraph b"
    using b(3) by simp_all
  from recording_applyOps [OF b(2) this, of xs] obtain b' where
    b': "recording (undoManager (diagram (applyOps xs b))) = Some b'"
      "validEdits b' (modelGraph a)"
      "applyEdits b' (modelGraph a) = modelGraph (applyOps xs b)"
    by blast
  let ?c = "applyOps xs b"
  let ?r1 = "syncSelection (setModelGraph (revertEdits b' (modelGraph ?c)) ?c)"
  have "modelGraph (rollbackTransaction ?c) = modelGraph ?r1"
    using b'(1)
    by (simp add: rollbackTransaction_def Let_def modelGraph_def modelNodes_def modelLinks_def)
  also have "\<dots> = modelGraph a"
    using b'(2)
    by (simp add: modelGraph_syncSelection modelGraph_setModelGraph b'(3) [symmetric]
        revertEdits_applyEdits)
  finally show ?thesis using b(1) by simp
qed

section \<open>Toggling the status and undo\<close>

lemma toggleStatus_modelOp:
  assumes "first (selection (diagram a)) = Some (NodePart k)"
    and "partData a k = Some d"
  shows "toggleStatus a = modelCall (modelOpEdits (SetDataProperty k ''status''
      (if status d = JStr ''active'' then JStr ''inactive'' else JStr ''active''))) a"
  using assms by (simp add: toggleStatus_def modelCall_def)

text \<open>
  An operation made while Idle is undone by the next \<^verbatim>\<open>undo\<close>: the model is as it was.
\<close>

lemma idle_call_undo:
  assumes idle: "recording (undoManager (diagram a)) = None"
    and call: "modelCall (modelOpEdits x) a = Inr a1"
  shows "\<exists>u. undo a1 = Inr u \<and> modelGraph u = modelGraph a"
proof -
  from call obtain es where es: "modelOpEdits x (modelGraph a) = Inr es"
    and a1: "a1 = performEdits es a"
    by (auto simp add: modelCall_def split: sum.splits)
  from modelOpEdits_valid [OF es] have v: "validEdits es (modelGraph a)" .
  have st: "undoStack (undoManager (diagram a1)) = es # undoStack (undoManager (diagram a))"
    using idle by (simp add: a1 undoManager_performEdits record_edits_def)
  have g1: "modelGraph a1 = applyEdits es (modelGraph a)"
    by (simp add: a1 modelGraph_performEdits)
  let ?u1 = "syncSelection (setModelGraph (revertEdits es (modelGraph a1)) a1)"
  obtain u where u: "undo a1 = Inr u" "modelGraph u = modelGraph ?u1"
    using st by (simp add: undo_def Let_def modelGraph_def modelNodes_def modelLinks_def)
  have "modelGraph ?u1 = modelGraph a"
    using v by (simp add: modelGraph_syncSelection modelGraph_setModelGraph g1
        revertEdits_applyEdits)
  with u show ?thesis by simp
qed

text \<open>
  The component never opens a transaction, so the undo manager is Idle whatever the user
  does with the buttons, the examples and the pointer after start-up.
\<close>

lemma idle_modelCall:
  "recording (undoManager (diagram a)) = None \<Longrightarrow>
   recording (undoManager (diagram (orUnchanged a (modelCall f a)))) = None"
  by (simp add: orUnchanged_def modelCall_def undoManager_performEdits record_edits_def
      split: sum.splits)

lemma idle_step:
  assumes "recording (undoManager (diagram a)) = None"
  shows "recording (undoManager (diagram (step x a))) = None"
proof (cases x)
  case AddNode
  with assms show ?thesis by (simp add: addNode_def idle_modelCall)
next
  case RemoveSelectedNode
  with assms show ?thesis
    using idle_modelCall [of a]
    by (auto simp add: removeSelectedNode_def orUnchanged_def split: option.splits part.splits)
next
  case ToggleStatus
  with assms show ?thesis
    using idle_modelCall [of a]
    by (auto simp add: toggleStatus_def orUnchanged_def split: option.splits part.splits)
next
  case (SelectExample y)
  with assms show ?thesis
    by (simp add: selectExample_def loadExample_def updateModel_def setNodeTemplate_def)
next
  case (ClickPart p)
  with assms show ?thesis by (simp add: clickPart_def select_def)
qed

lemma idle_run:
  "recording (undoManager (diagram a)) = None \<Longrightarrow>
   recording (undoManager (diagram (run xs a))) = None"
  by (induction xs arbitrary: a) (auto simp add: idle_step)

lemma idle_after_startup: "recording (undoManager (diagram (run xs ngAfterViewInit))) = None"
  by (rule idle_run) (simp add: recording_ngAfterViewInit)

text \<open>
  Claim C3. For a selected node whose status is \<^verbatim>\<open>'active'\<close>, \<^verbatim>\<open>toggleStatus\<close> sets the
  status to \<^verbatim>\<open>'inactive'\<close>, and a subsequent \<^verbatim>\<open>undo\<close> restores the status to \<^verbatim>\<open>'active'\<close>
  (the whole model is as before the toggle). The undo manager is Idle, as it is in every
  state the component reaches.
\<close>

theorem toggleStatus_undo:
  assumes idle: "recording (undoManager (diagram a)) = None"
    and sel: "first (selection (diagram a)) = Some (NodePart k)"
    and dat: "partData a k = Some d"
    and act: "status d = JStr ''active''"
  shows "\<exists>a1 u. toggleStatus a = Inr a1 \<and>
     partData a1 k = Some (d\<lparr>status := JStr ''inactive''\<rparr>) \<and>
     undo a1 = Inr u \<and>
     partData u k = Some d \<and>
     modelGraph u = modelGraph a"
proof -
  from toggleStatus_step [OF sel dat] act obtain a1 where
    a1: "toggleStatus a = Inr a1" "partData a1 k = Some (d\<lparr>status := JStr ''inactive''\<rparr>)"
    by auto
  from a1(1) toggleStatus_modelOp [OF sel dat]
  have "modelCall (modelOpEdits (SetDataProperty k ''status''
      (if status d = JStr ''active'' then JStr ''inactive'' else JStr ''active''))) a = Inr a1"
    by simp
  from idle_call_undo [OF idle this] obtain u where
    u: "undo a1 = Inr u" "modelGraph u = modelGraph a"
    by blast
  from u(2) dat have "partData u k = Some d"
    by (simp add: partData_def modelNodes_fst)
  with a1 u show ?thesis by simp
qed

theorem toggleStatus_undo_witness:
  "recording (undoManager (diagram
     (run [AddNode, ClickPart (NodePart (Num 4))] ngAfterViewInit))) = None \<and>
   first (selection (diagram (run [AddNode, ClickPart (NodePart (Num 4))] ngAfterViewInit)))
     = Some (NodePart (Num 4)) \<and>
   partData (run [AddNode, ClickPart (NodePart (Num 4))] ngAfterViewInit) (Num 4)
     = Some \<lparr>key = Num 4, name = ''Person 4'', status = JStr ''active'',
          role = JStr ''employee''\<rparr> \<and>
   (\<exists>a1 u. toggleStatus (run [AddNode, ClickPart (NodePart (Num 4))] ngAfterViewInit) = Inr a1 \<and>
      partData a1 (Num 4)
        = Some \<lparr>key = Num 4, name = ''Person 4'', status = JStr ''inactive'',
             role = JStr ''employee''\<rparr> \<and>
      undo a1 = Inr u \<and>
      partData u (Num 4)
        = Some \<lparr>key = Num 4, name = ''Person 4'', status = JStr ''active'',
             role = JStr ''employee''\<rparr> \<and>
      modelGraph u = modelGraph (run [AddNode, ClickPart (NodePart (Num 4))] ngAfterViewInit))"
proof -
  let ?s = "run [AddNode, ClickPart (NodePart (Num 4))] ngAfterViewInit"
  let ?dana = "\<lparr>key = Num 4, name = ''Person 4'', status = JStr ''active'',
      role = JStr ''employee''\<rparr>"
  have i: "recording (undoManager (diagram ?s)) = None"
    by (rule idle_after_startup)
  have s: "first (selection (diagram ?s)) = Some (NodePart (Num 4))"
    by code_simp
  have d: "partData ?s (Num 4) = Some ?dana"
    by code_simp
  have act: "status ?dana = JStr ''active''" by simp
  from toggleStatus_undo [OF i s d act]
  have c: "\<exists>a1 u. toggleStatus ?s = Inr a1 \<and>
      partData a1 (Num 4)
        = Some \<lparr>key = Num 4, name = ''Person 4'', status = JStr ''inactive'',
             role = JStr ''employee''\<rparr> \<and>
      undo a1 = Inr u \<and>
      partData u (Num 4) = Some ?dana \<and>
      modelGraph u = modelGraph ?s"
    by (simp del: run.simps)
  from i s d c show ?thesis by (intro conjI)
qed

end
